theory Spec2Isabelle
  imports Complex_Main "HOL-Library.Sublist"
begin

section \<open>Python values held by a table cell\<close>

text \<open>
  A Python \<open>str\<close> is a sequence of Unicode code points, and the texts of this program are
  Cyrillic, so a string is a list of code points. \<open>asc\<close> embeds an ASCII literal.
\<close>

type_synonym ustr = "nat list"

definition asc :: "string \<Rightarrow> ustr" where
  "asc s = map of_char s"

text \<open>
  A float is a real number, an infinity or NaN (pandas' missing marker). Rounding of a
  finite value to the nearest binary64 is not modelled: arithmetic on finite values is
  exact. The range of binary64 is modelled where a conversion to float meets it.
\<close>

datatype flt = NaN | Fin real | PInf | NInf

datatype pyval = PNone | PFloat flt | PInt int | PStr ustr

datatype error = TypeError | ValueError | KeyError | OverflowError

text \<open>\<open>pd.isna\<close> and \<open>pd.notna\<close> on a scalar.\<close>

fun isna :: "pyval \<Rightarrow> bool" where
  "isna PNone = True"
| "isna (PFloat NaN) = True"
| "isna _ = False"

definition notna :: "pyval \<Rightarrow> bool" where
  "notna v = (\<not> isna v)"

text \<open>
  \<open>v < c\<close> and \<open>v > c\<close> for a float constant \<open>c\<close>: a number compares by value, NaN compares
  false, and a string or \<open>None\<close> against a float raises TypeError.
\<close>

fun py_lt :: "pyval \<Rightarrow> real \<Rightarrow> error + bool" where
  "py_lt (PFloat (Fin x)) c = Inr (x < c)"
| "py_lt (PFloat NInf) c = Inr True"
| "py_lt (PFloat PInf) c = Inr False"
| "py_lt (PFloat NaN) c = Inr False"
| "py_lt (PInt n) c = Inr (of_int n < c)"
| "py_lt (PStr s) c = Inl TypeError"
| "py_lt PNone c = Inl TypeError"

fun py_gt :: "pyval \<Rightarrow> real \<Rightarrow> error + bool" where
  "py_gt (PFloat (Fin x)) c = Inr (x > c)"
| "py_gt (PFloat PInf) c = Inr True"
| "py_gt (PFloat NInf) c = Inr False"
| "py_gt (PFloat NaN) c = Inr False"
| "py_gt (PInt n) c = Inr (of_int n > c)"
| "py_gt (PStr s) c = Inl TypeError"
| "py_gt PNone c = Inl TypeError"

subsection \<open>Strings: \<open>lower\<close> and \<open>in\<close>\<close>

text \<open>
  \<open>str.lower\<close>, code point by code point, on the alphabets this program's texts use:
  Basic Latin, Latin-1 and Cyrillic. Every other code point is left as it is.
\<close>

definition lower_cp :: "nat \<Rightarrow> nat" where
  "lower_cp c =
     (if 65 \<le> c \<and> c \<le> 90 then c + 32
      else if 192 \<le> c \<and> c \<le> 222 \<and> c \<noteq> 215 then c + 32
      else if 1040 \<le> c \<and> c \<le> 1071 then c + 32
      else if 1024 \<le> c \<and> c \<le> 1039 then c + 80
      else c)"

definition lower :: "ustr \<Rightarrow> ustr" where
  "lower s = map lower_cp s"

text \<open>\<open>p in s\<close> for two strings: \<open>p\<close> occurs in \<open>s\<close> as a contiguous run.\<close>

fun py_in :: "ustr \<Rightarrow> ustr \<Rightarrow> bool" where
  "py_in p [] = (p = [])"
| "py_in p (x # xs) = (prefix p (x # xs) \<or> py_in p xs)"

section \<open>analysis.py: thresholds and canonical field names\<close>

definition erf_high_risk :: real where "erf_high_risk = 0.8"
definition erf_medium_risk :: real where "erf_medium_risk = 0.5"
definition wall_thickness_critical :: real where "wall_thickness_critical = 3.0"
definition depth_critical :: real where "depth_critical = 40"
definition depth_high :: real where "depth_high = 25"

definition repair_flag :: ustr where "repair_flag = asc ''repair_flag''"
definition erf_b31g :: ustr where "erf_b31g = asc ''erf_b31g''"
definition erf_dnv :: ustr where "erf_dnv = asc ''erf_dnv''"
definition wall_thickness_remaining_mm :: ustr where
  "wall_thickness_remaining_mm = asc ''wall_thickness_remaining_mm''"
definition depth_pct :: ustr where "depth_pct = asc ''depth_pct''"
definition anomaly_type :: ustr where "anomaly_type = asc ''anomaly_type''"
definition risk_class :: ustr where "risk_class = asc ''risk_class''"
definition repair_priority :: ustr where "repair_priority = asc ''repair_priority''"

text \<open>The two markers of the repair flag: "obyazatelen" (mandatory) and "nemedlenn" (immediate).\<close>

definition marker_mandatory :: ustr where
  "marker_mandatory = [1086, 1073, 1103, 1079, 1072, 1090, 1077, 1083, 1077, 1085]"

definition marker_immediate :: ustr where
  "marker_immediate = [1085, 1077, 1084, 1077, 1076, 1083, 1077, 1085, 1085]"

section \<open>assign_risk_class\<close>

text \<open>
  A row is a pandas Series: a map from column label to cell. \<open>row.get(k, d)\<close> is the cell
  at \<open>k\<close>, or \<open>d\<close> when the row has no such label.
\<close>

type_synonym row = "ustr \<Rightarrow> pyval option"

definition row_get :: "row \<Rightarrow> ustr \<Rightarrow> pyval \<Rightarrow> pyval" where
  "row_get r k d = (case r k of Some v \<Rightarrow> v | None \<Rightarrow> d)"

text \<open>
  \<open>'m1' in s or 'm2' in s\<close> for \<open>s = str(v).lower()\<close>. For a cell that is not a string,
  \<open>str\<close> gives ASCII text (\<open>None\<close>, \<open>nan\<close>, \<open>inf\<close>, a number's digits), in which no
  Cyrillic marker occurs.
\<close>

fun has_marker :: "pyval \<Rightarrow> bool" where
  "has_marker (PStr s) = (py_in marker_mandatory (lower s) \<or> py_in marker_immediate (lower s))"
| "has_marker _ = False"

datatype risk = High | Medium | Low

text \<open>\<open>pd.notna(v) and v < c\<close>: the comparison is reached only for a cell that is not missing.\<close>

definition notna_lt :: "pyval \<Rightarrow> real \<Rightarrow> error + bool" where
  "notna_lt v c = (if notna v then py_lt v c else Inr False)"

definition notna_gt :: "pyval \<Rightarrow> real \<Rightarrow> error + bool" where
  "notna_gt v c = (if notna v then py_gt v c else Inr False)"

text \<open>\<open>if cond: return t\<close> followed by the rest of the function.\<close>

definition ret_if :: "error + bool \<Rightarrow> risk \<Rightarrow> (error + risk) \<Rightarrow> error + risk" where
  "ret_if cond t rest = (case cond of Inl e \<Rightarrow> Inl e | Inr b \<Rightarrow> if b then Inr t else rest)"

definition assign_risk_class :: "row \<Rightarrow> error + risk" where
  "assign_risk_class r =
     (if has_marker (row_get r repair_flag (PStr [])) then Inr High
      else
        let erf_b = row_get r erf_b31g (PFloat (Fin 1.0));
            erf_d = row_get r erf_dnv (PFloat (Fin 1.0))
        in ret_if (notna_lt erf_b erf_high_risk) High
          (ret_if (notna_lt erf_d erf_high_risk) High
            (let wall_remaining = row_get r wall_thickness_remaining_mm (PInt 100)
             in ret_if (notna_lt wall_remaining wall_thickness_critical) High
               (let depth = row_get r depth_pct (PInt 0)
                in ret_if (notna_gt depth depth_critical) High
                  (ret_if (notna_lt erf_b erf_medium_risk) Medium
                    (ret_if (notna_lt erf_d erf_medium_risk) Medium
                      (ret_if (notna_gt depth depth_high) Medium
                        (Inr Low))))))))"

section \<open>What the specification says about a record\<close>

text \<open>
  The data model's invariant on a record: a numeric field that the classifier reads is a
  number or the missing marker, never a text.
\<close>

fun not_str :: "pyval option \<Rightarrow> bool" where
  "not_str (Some (PStr s)) = False"
| "not_str _ = True"

definition numeric_fields_ok :: "row \<Rightarrow> bool" where
  "numeric_fields_ok r =
     (not_str (r erf_b31g) \<and> not_str (r erf_dnv) \<and>
      not_str (r wall_thickness_remaining_mm) \<and> not_str (r depth_pct))"

text \<open>A cell holds a number below (above) a bound.\<close>

fun cell_lt :: "pyval \<Rightarrow> real \<Rightarrow> bool" where
  "cell_lt (PFloat (Fin x)) c = (x < c)"
| "cell_lt (PFloat NInf) c = True"
| "cell_lt (PInt n) c = (of_int n < c)"
| "cell_lt _ c = False"

fun cell_gt :: "pyval \<Rightarrow> real \<Rightarrow> bool" where
  "cell_gt (PFloat (Fin x)) c = (x > c)"
| "cell_gt (PFloat PInf) c = True"
| "cell_gt (PInt n) c = (of_int n > c)"
| "cell_gt _ c = False"

text \<open>The field \<open>k\<close> of the record is present and less (greater) than \<open>c\<close>.\<close>

definition present_lt :: "row \<Rightarrow> ustr \<Rightarrow> real \<Rightarrow> bool" where
  "present_lt r k c = (case r k of Some v \<Rightarrow> cell_lt v c | None \<Rightarrow> False)"

definition present_gt :: "row \<Rightarrow> ustr \<Rightarrow> real \<Rightarrow> bool" where
  "present_gt r k c = (case r k of Some v \<Rightarrow> cell_gt v c | None \<Rightarrow> False)"

text \<open>The field is absent from the record, or holds the missing marker.\<close>

fun missing :: "pyval option \<Rightarrow> bool" where
  "missing None = True"
| "missing (Some v) = isna v"

text \<open>The repair flag of the record carries one of the two markers.\<close>

definition flag_marked :: "row \<Rightarrow> bool" where
  "flag_marked r = (case r repair_flag of Some v \<Rightarrow> has_marker v | None \<Rightarrow> False)"

text \<open>The five High rules of the specification, in its words.\<close>

definition high_rule :: "row \<Rightarrow> bool" where
  "high_rule r =
     (flag_marked r \<or> present_lt r erf_b31g 0.8 \<or> present_lt r erf_dnv 0.8 \<or>
      present_lt r wall_thickness_remaining_mm 3.0 \<or> present_gt r depth_pct 40)"

text \<open>The two scenario records of the specification, and the record with nothing known.\<close>

definition scenario_high :: row where
  "scenario_high = map_of
     [(erf_b31g, PFloat (Fin 0.45)), (depth_pct, PInt 10),
      (wall_thickness_remaining_mm, PInt 8), (repair_flag, PStr [])]"

definition scenario_medium :: row where
  "scenario_medium = map_of
     [(erf_b31g, PFloat (Fin 0.6)), (depth_pct, PInt 30),
      (wall_thickness_remaining_mm, PInt 10), (repair_flag, PStr [])]"

definition scenario_all_missing :: row where
  "scenario_all_missing = map_of
     [(erf_b31g, PFloat NaN), (erf_dnv, PFloat NaN), (depth_pct, PFloat NaN),
      (wall_thickness_remaining_mm, PFloat NaN), (repair_flag, PStr [])]"

text \<open>A record whose only field is a repair flag in capitals: "REMONT OBYAZATELEN".\<close>

definition flag_in_capitals :: ustr where
  "flag_in_capitals = [1056, 1045, 1052, 1054, 1053, 1058, 32,
                       1054, 1041, 1071, 1047, 1040, 1058, 1045, 1051, 1045, 1053]"

definition scenario_flag_only :: row where
  "scenario_flag_only = map_of [(repair_flag, PStr flag_in_capitals)]"

text \<open>The second scenario with its ERF raised to 0.9, above the High threshold.\<close>

definition scenario_depth_only :: row where
  "scenario_depth_only = map_of
     [(erf_b31g, PFloat (Fin 0.9)), (depth_pct, PInt 30),
      (wall_thickness_remaining_mm, PInt 10), (repair_flag, PStr [])]"

section \<open>clean_numeric\<close>

text \<open>
  \<open>str.strip\<close> removes the white space of \<open>str.isspace\<close> from both ends;
  \<open>replace(',', '.')\<close> turns every comma into a dot.
\<close>

definition is_space :: "nat \<Rightarrow> bool" where
  "is_space c = ((9 \<le> c \<and> c \<le> 13) \<or> (28 \<le> c \<and> c \<le> 32) \<or> c = 133 \<or> c = 160 \<or>
     c = 5760 \<or> (8192 \<le> c \<and> c \<le> 8202) \<or> c = 8232 \<or> c = 8233 \<or> c = 8239 \<or>
     c = 8287 \<or> c = 12288)"

definition strip :: "ustr \<Rightarrow> ustr" where
  "strip s = rev (dropWhile is_space (rev (dropWhile is_space s)))"

definition replace_comma :: "ustr \<Rightarrow> ustr" where
  "replace_comma s = map (\<lambda>c. if c = 44 then 46 else c) s"

text \<open>
  The range of binary64. An integer, or the exact value of a decimal text, rounds to a
  finite float when its magnitude is below \<open>2^1024 - 2^970\<close>, the midpoint between the
  largest float and \<open>2^1024\<close>. Beyond it \<open>float(n)\<close> of an int raises OverflowError, and
  \<open>float(s)\<close> of a text gives an infinity.
\<close>

definition float_bound :: int where
  "float_bound = 2 ^ 1024 - 2 ^ 970"

definition float_of_int :: "int \<Rightarrow> error + flt" where
  "float_of_int n = (if \<bar>n\<bar> < float_bound then Inr (Fin (of_int n)) else Inl OverflowError)"

definition float_of_exact :: "real \<Rightarrow> flt" where
  "float_of_exact x =
     (if of_int float_bound \<le> x then PInf
      else if x \<le> - of_int float_bound then NInf
      else Fin x)"

text \<open>
  \<open>float(s)\<close> on a string, after Python's grammar: white space around, an optional sign,
  then \<open>inf\<close>, \<open>infinity\<close> or \<open>nan\<close> in any ASCII letter case, or a decimal number with an
  optional fraction and exponent, where single underscores may separate digits. A text
  outside the grammar raises ValueError.

  A digit is any Unicode decimal digit (general category Nd). These come in runs of ten,
  zero to nine; the table lists the zero of each run, as of Unicode 14 (Python 3.11).
\<close>

definition decimal_zeros :: "nat list" where
  "decimal_zeros =
    [48, 1632, 1776, 1984, 2406, 2534, 2662, 2790, 2918, 3046, 3174, 3302, 3430, 3558, 3664,
     3792, 3872, 4160, 4240, 6112, 6160, 6470, 6608, 6784, 6800, 6992, 7088, 7232, 7248,
     42528, 43216, 43264, 43472, 43504, 43600, 44016, 65296, 66720, 68912, 69734, 69872,
     69942, 70096, 70384, 70736, 70864, 71248, 71360, 71472, 71904, 72016, 72784, 73040,
     73120, 92768, 92864, 93008, 120782, 120792, 120802, 120812, 120822, 123200, 123632,
     125264, 130032]"

fun digit_in :: "nat list \<Rightarrow> nat \<Rightarrow> nat option" where
  "digit_in [] c = None"
| "digit_in (z # zs) c = (if z \<le> c \<and> c \<le> z + 9 then Some (c - z) else digit_in zs c)"

definition digit_value :: "nat \<Rightarrow> nat option" where
  "digit_value c = digit_in decimal_zeros c"

text \<open>
  The white space that \<open>float\<close> itself drops from both ends: that of \<open>str.isspace\<close>
  without the four separators U+001C to U+001F.
\<close>

definition is_float_space :: "nat \<Rightarrow> bool" where
  "is_float_space c = (is_space c \<and> \<not> (28 \<le> c \<and> c \<le> 31))"

definition float_strip :: "ustr \<Rightarrow> ustr" where
  "float_strip s = rev (dropWhile is_float_space (rev (dropWhile is_float_space s)))"

fun digits_tail :: "ustr \<Rightarrow> nat list \<times> ustr" where
  "digits_tail [] = ([], [])"
| "digits_tail [c] = (case digit_value c of Some v \<Rightarrow> ([v], []) | None \<Rightarrow> ([], [c]))"
| "digits_tail (c # d # cs) =
     (case digit_value c of
        Some v \<Rightarrow> (case digits_tail (d # cs) of (ds, r) \<Rightarrow> (v # ds, r))
      | None \<Rightarrow>
          (if c = 95 then
             (case digit_value d of
                Some w \<Rightarrow> (case digits_tail cs of (ds, r) \<Rightarrow> (w # ds, r))
              | None \<Rightarrow> ([], c # d # cs))
           else ([], c # d # cs)))"

fun digitpart :: "ustr \<Rightarrow> (nat list \<times> ustr) option" where
  "digitpart [] = None"
| "digitpart (c # cs) =
     (case digit_value c of
        Some v \<Rightarrow> (case digits_tail cs of (ds, r) \<Rightarrow> Some (v # ds, r))
      | None \<Rightarrow> None)"

definition digits_value :: "nat list \<Rightarrow> nat" where
  "digits_value ds = foldl (\<lambda>a d. 10 * a + d) 0 ds"

fun parse_number :: "ustr \<Rightarrow> (nat list \<times> nat list \<times> ustr) option" where
  "parse_number s =
     (case digitpart s of
        Some (ip, r) \<Rightarrow>
          (case r of
             [] \<Rightarrow> Some (ip, [], [])
           | c # r' \<Rightarrow>
               if c = 46 then
                 (case digitpart r' of Some (fp, r'') \<Rightarrow> Some (ip, fp, r'') | None \<Rightarrow> Some (ip, [], r'))
               else Some (ip, [], r))
      | None \<Rightarrow>
          (case s of
             [] \<Rightarrow> None
           | c # r' \<Rightarrow>
               if c = 46 then
                 (case digitpart r' of Some (fp, r'') \<Rightarrow> Some ([], fp, r'') | None \<Rightarrow> None)
               else None))"

fun parse_exponent :: "ustr \<Rightarrow> int option" where
  "parse_exponent [] = Some 0"
| "parse_exponent (c # r) =
     (if c = 101 \<or> c = 69 then
        (case r of
           [] \<Rightarrow> None
         | s # t \<Rightarrow>
             if s = 43 then (case digitpart t of Some (ds, []) \<Rightarrow> Some (int (digits_value ds)) | _ \<Rightarrow> None)
             else if s = 45 then (case digitpart t of Some (ds, []) \<Rightarrow> Some (- int (digits_value ds)) | _ \<Rightarrow> None)
             else (case digitpart r of Some (ds, []) \<Rightarrow> Some (int (digits_value ds)) | _ \<Rightarrow> None))
      else None)"

definition scale10 :: "real \<Rightarrow> int \<Rightarrow> real" where
  "scale10 x e = (if 0 \<le> e then x * 10 ^ nat e else x / 10 ^ nat (- e))"

definition parse_unsigned :: "ustr \<Rightarrow> flt option" where
  "parse_unsigned s =
     (if lower s = asc ''inf'' \<or> lower s = asc ''infinity'' then Some PInf
      else if lower s = asc ''nan'' then Some NaN
      else case parse_number s of
             None \<Rightarrow> None
           | Some (ip, fp, r) \<Rightarrow>
               (case parse_exponent r of
                  None \<Rightarrow> None
                | Some e \<Rightarrow>
                    Some (float_of_exact
                      (scale10 (real (digits_value (ip @ fp)) / 10 ^ length fp) e))))"

fun flt_neg :: "flt \<Rightarrow> flt" where
  "flt_neg NaN = NaN"
| "flt_neg (Fin x) = Fin (- x)"
| "flt_neg PInf = NInf"
| "flt_neg NInf = PInf"

definition py_float :: "ustr \<Rightarrow> error + flt" where
  "py_float s0 =
     (let s = float_strip s0;
          res = (case s of
                   [] \<Rightarrow> None
                 | c # r \<Rightarrow>
                     if c = 45 then map_option flt_neg (parse_unsigned r)
                     else if c = 43 then parse_unsigned r
                     else parse_unsigned s)
      in case res of None \<Rightarrow> Inl ValueError | Some v \<Rightarrow> Inr v)"

text \<open>
  \<open>clean_numeric\<close>: the missing marker for a missing or empty value; for an int or a
  float \<open>float(val)\<close>, which stands outside the \<open>try\<close> and raises OverflowError on an int
  beyond the range of binary64; for a text the float it parses to, where the bare
  \<open>except\<close> turns every error of the parse into the missing marker.
\<close>

definition clean_numeric :: "pyval \<Rightarrow> error + flt" where
  "clean_numeric val =
     (if isna val \<or> val = PStr [] then Inr NaN
      else case val of
             PInt n \<Rightarrow> float_of_int n
           | PFloat x \<Rightarrow> Inr x
           | PStr s \<Rightarrow>
               (let str_val = strip (replace_comma s)
                in case py_float str_val of Inl e \<Rightarrow> Inr NaN | Inr v \<Rightarrow> Inr v)
           | PNone \<Rightarrow> Inr NaN)"

text \<open>The text of the fullwidth digits one and two, a dot, and the fullwidth digit five.\<close>

definition fullwidth_twelve_point_five :: ustr where
  "fullwidth_twelve_point_five = [65297, 65298, 46, 65301]"

section \<open>normalize_defects: renaming the columns\<close>

text \<open>
  The mapping table, a dict literal: its items come in the order written. The keys are
  the sheet's Russian headers, as code points.
\<close>

definition COLUMN_MAPPING :: "(ustr \<times> ustr) list" where
  "COLUMN_MAPPING =
    [([8470, 32, 1089, 1077, 1082, 1094, 1080, 1080],
        asc ''section_id''),
     ([1076, 1083, 1080, 1085, 1072, 32, 1089, 1077, 1082, 1094, 1080, 1080, 32, 91, 1084, 93],
        asc ''section_length_m''),
     ([1087, 1088, 1080, 1074, 46, 1058, 1057, 32, 91, 1084, 1084, 93],
        asc ''wall_thickness_mm''),
     ([1088, 1072, 1089, 1089, 1090, 46, 32, 1076, 1086, 32, 1096, 1074, 1072, 32, 1087, 1088, 1086, 1090, 1080, 1074, 32, 1090, 1077, 1095, 46, 32, 91, 1084, 93],
        asc ''distance_to_weld_m''),
     ([1080, 1079, 1084, 1077, 1088, 46, 32, 1088, 1072, 1089, 1089, 1090, 46, 32, 91, 1084, 93],
        asc ''measured_distance_m''),
     ([1090, 1080, 1087, 32, 1072, 1085, 1086, 1084, 1072, 1083, 1080, 1080],
        asc ''anomaly_type''),
     ([1080, 1076, 1077, 1085, 1090, 1080, 1092, 1080, 1082, 1072, 1094, 1080, 1103],
        asc ''identification''),
     ([1082, 1086, 1084, 1084, 1077, 1085, 1090, 1072, 1088, 1080, 1081],
        asc ''comment''),
     ([1086, 1088, 1080, 1077, 1085, 1090, 1072, 1094, 1080, 1103],
        asc ''orientation''),
     ([1076, 1083, 1080, 1085, 1072, 32, 91, 1084, 1084, 93],
        asc ''defect_length_mm''),
     ([1096, 1080, 1088, 1080, 1085, 1072, 32, 91, 1084, 1084, 93],
        asc ''defect_width_mm''),
     ([1075, 1083, 1091, 1073, 1080, 1085, 1072, 32, 91, 37, 93],
        asc ''depth_pct''),
     ([1089, 1088, 1077, 1076, 1085, 1103, 1103, 32, 1075, 1083, 1091, 1073, 1080, 1085, 1072, 32, 91, 37, 93],
        asc ''depth_avg_pct''),
     ([1072, 1073, 1089, 46, 32, 1075, 1083, 1091, 1073, 1080, 1085, 1072, 32, 91, 1084, 1084, 93],
        asc ''depth_abs_mm''),
     ([1086, 1089, 1090, 1072, 1090, 46, 32, 1058, 1057, 32, 91, 1084, 1084, 93],
        asc ''wall_thickness_remaining_mm''),
     ([1088, 1077, 1079, 46, 32, 1075, 1083, 1091, 1073, 1080, 1085, 1072, 32, 91, 37, 93],
        asc ''depth_result_pct''),
     ([1091, 1084, 1077, 1085, 1100, 1096, 46, 32, 1042, 1044, 32, 91, 37, 93],
        asc ''pressure_reduction_pct''),
     ([69, 82, 70, 32, 66, 51, 49, 71],
        asc ''erf_b31g''),
     ([69, 82, 70, 32, 40, 1089, 1083, 1091, 1095, 1072, 1081, 32, 49, 41],
        asc ''erf_case1''),
     ([69, 82, 70, 32, 40, 1089, 1083, 1091, 1095, 1072, 1081, 32, 50, 41],
        asc ''erf_case2''),
     ([69, 82, 70, 32, 68, 78, 86],
        asc ''erf_dnv''),
     ([1083, 1086, 1082, 1072, 1094, 1080, 1103, 32, 1085, 1072, 32, 1087, 1086, 1074, 1077, 1088, 1093, 1085, 46],
        asc ''surface_location''),
     ([1082, 1083, 1072, 1089, 1089, 32, 1083, 1086, 1082, 46],
        asc ''local_class''),
     ([1056, 1077, 1084, 1086, 1085, 1090],
        asc ''repair_flag'')]"

text \<open>\<open>key.lower() in str(old_col).lower()\<close>, for a header that is a text.\<close>

definition key_matches :: "ustr \<Rightarrow> ustr \<Rightarrow> bool" where
  "key_matches key old_col = py_in (lower key) (lower old_col)"

text \<open>The inner loop over the items of the table, left at the first match by \<open>break\<close>.\<close>

fun first_match :: "(ustr \<times> ustr) list \<Rightarrow> ustr \<Rightarrow> ustr option" where
  "first_match [] old_col = None"
| "first_match ((key, val) # items) old_col =
     (if key_matches key old_col then Some val else first_match items old_col)"

text \<open>The outer loop over the columns, filling \<open>rename_dict\<close>.\<close>

fun build_rename_dict :: "ustr list \<Rightarrow> (ustr \<Rightarrow> ustr option) \<Rightarrow> (ustr \<Rightarrow> ustr option)" where
  "build_rename_dict [] rename_dict = rename_dict"
| "build_rename_dict (old_col # cols) rename_dict =
     build_rename_dict cols
       (case first_match COLUMN_MAPPING old_col of
          Some val \<Rightarrow> rename_dict(old_col \<mapsto> val)
        | None \<Rightarrow> rename_dict)"

text \<open>\<open>df.rename(columns=rename_dict)\<close>: a label that is a key of the dict is replaced.\<close>

definition rename :: "ustr list \<Rightarrow> (ustr \<Rightarrow> ustr option) \<Rightarrow> ustr list" where
  "rename cols rename_dict =
     map (\<lambda>c. case rename_dict c of Some val \<Rightarrow> val | None \<Rightarrow> c) cols"

definition rename_columns :: "ustr list \<Rightarrow> ustr list" where
  "rename_columns cols = rename cols (build_rename_dict cols Map.empty)"

text \<open>The header "Srednyaya glubina [%]" (mean depth), and a header of no known kind.\<close>

definition header_mean_depth :: ustr where
  "header_mean_depth = [1057, 1088, 1077, 1076, 1085, 1103, 1103, 32, 1075, 1083, 1091,
     1073, 1080, 1085, 1072, 32, 91, 37, 93]"

definition header_unknown :: ustr where
  "header_unknown = asc ''Unnamed: 7''"

section \<open>Tables\<close>

text \<open>
  A DataFrame: its column labels in order, and its rows, each a list of cells with one
  cell for each column. The labels of a frame read from a sheet are distinct.
\<close>

record dataframe =
  columns :: "ustr list"
  rows :: "pyval list list"

definition wf_frame :: "dataframe \<Rightarrow> bool" where
  "wf_frame df =
     (distinct (columns df) \<and> list_all (\<lambda>r. length r = length (columns df)) (rows df))"

text \<open>A row of the frame as the Series that \<open>df.apply(f, axis=1)\<close> hands to \<open>f\<close>.\<close>

definition row_of :: "ustr list \<Rightarrow> pyval list \<Rightarrow> row" where
  "row_of cols vals = map_of (zip cols vals)"

text \<open>
  \<open>df.apply(f, axis=1)\<close>: \<open>f\<close> on every row, in order; the first exception ends the call.
  On a frame without rows the result is the empty Series.
\<close>

fun apply_rows :: "(row \<Rightarrow> error + 'a) \<Rightarrow> ustr list \<Rightarrow> pyval list list \<Rightarrow> error + 'a list" where
  "apply_rows f cols [] = Inr []"
| "apply_rows f cols (r # rs) =
     (case f (row_of cols r) of
        Inl e \<Rightarrow> Inl e
      | Inr v \<Rightarrow> (case apply_rows f cols rs of Inl e \<Rightarrow> Inl e | Inr vs \<Rightarrow> Inr (v # vs)))"

text \<open>
  \<open>df[c] = vs\<close>: the cells of an existing column are replaced, a new column is added as
  the last one.
\<close>

definition set_cell :: "ustr list \<Rightarrow> ustr \<Rightarrow> pyval list \<Rightarrow> pyval \<Rightarrow> pyval list" where
  "set_cell cols c r v =
     (if c \<in> set cols then map2 (\<lambda>k x. if k = c then v else x) cols r else r @ [v])"

definition set_column :: "dataframe \<Rightarrow> ustr \<Rightarrow> pyval list \<Rightarrow> dataframe" where
  "set_column df c vs =
     \<lparr>columns = (if c \<in> set (columns df) then columns df else columns df @ [c]),
      rows = map2 (set_cell (columns df) c) (rows df) vs\<rparr>"

text \<open>\<open>df[c]\<close>: the cells of the column, KeyError for a label the frame does not have.\<close>

definition get_column :: "dataframe \<Rightarrow> ustr \<Rightarrow> error + pyval list" where
  "get_column df c =
     (if c \<in> set (columns df)
      then Inr (map (\<lambda>r. row_get (row_of (columns df) r) c PNone) (rows df))
      else Inl KeyError)"

section \<open>Column statistics\<close>

text \<open>
  The numbers of a column, missing cells skipped (\<open>skipna\<close>); a text among them makes
  the reduction raise TypeError.
\<close>

fun numbers :: "pyval list \<Rightarrow> error + flt list" where
  "numbers [] = Inr []"
| "numbers (v # vs) =
     (case v of
        PStr s \<Rightarrow> Inl TypeError
      | PNone \<Rightarrow> numbers vs
      | PFloat NaN \<Rightarrow> numbers vs
      | PFloat x \<Rightarrow> (case numbers vs of Inl e \<Rightarrow> Inl e | Inr xs \<Rightarrow> Inr (x # xs))
      | PInt n \<Rightarrow> (case numbers vs of Inl e \<Rightarrow> Inl e | Inr xs \<Rightarrow> Inr (Fin (of_int n) # xs)))"

fun flt_add :: "flt \<Rightarrow> flt \<Rightarrow> flt" where
  "flt_add (Fin x) (Fin y) = Fin (x + y)"
| "flt_add NaN _ = NaN"
| "flt_add _ NaN = NaN"
| "flt_add PInf NInf = NaN"
| "flt_add NInf PInf = NaN"
| "flt_add PInf _ = PInf"
| "flt_add _ PInf = PInf"
| "flt_add NInf _ = NInf"
| "flt_add _ NInf = NInf"

fun flt_div_nat :: "flt \<Rightarrow> nat \<Rightarrow> flt" where
  "flt_div_nat (Fin x) n = Fin (x / of_nat n)"
| "flt_div_nat y n = y"

fun flt_le :: "flt \<Rightarrow> flt \<Rightarrow> bool" where
  "flt_le (Fin x) (Fin y) = (x \<le> y)"
| "flt_le NInf _ = True"
| "flt_le _ PInf = True"
| "flt_le _ _ = False"

definition flt_max :: "flt \<Rightarrow> flt \<Rightarrow> flt" where
  "flt_max a b = (if flt_le a b then b else a)"

definition flt_min :: "flt \<Rightarrow> flt \<Rightarrow> flt" where
  "flt_min a b = (if flt_le a b then a else b)"

text \<open>\<open>Series.mean()\<close>, \<open>.max()\<close> and \<open>.min()\<close>: NaN when no number is left.\<close>

definition series_mean :: "pyval list \<Rightarrow> error + flt" where
  "series_mean vs =
     (case numbers vs of
        Inl e \<Rightarrow> Inl e
      | Inr xs \<Rightarrow> Inr (if xs = [] then NaN else flt_div_nat (foldl flt_add (Fin 0) xs) (length xs)))"

definition series_max :: "pyval list \<Rightarrow> error + flt" where
  "series_max vs =
     (case numbers vs of
        Inl e \<Rightarrow> Inl e
      | Inr [] \<Rightarrow> Inr NaN
      | Inr (x # xs) \<Rightarrow> Inr (foldl flt_max x xs))"

definition series_min :: "pyval list \<Rightarrow> error + flt" where
  "series_min vs =
     (case numbers vs of
        Inl e \<Rightarrow> Inl e
      | Inr [] \<Rightarrow> Inr NaN
      | Inr (x # xs) \<Rightarrow> Inr (foldl flt_min x xs))"

text \<open>
  \<open>float(df[c].agg()) if c in df.columns else None\<close>: \<open>None\<close> stands for Python's
  \<open>None\<close>, \<open>Some NaN\<close> for the float NaN.
\<close>

definition column_stat :: "(pyval list \<Rightarrow> error + flt) \<Rightarrow> dataframe \<Rightarrow> ustr \<Rightarrow> error + flt option" where
  "column_stat agg df c =
     (if c \<in> set (columns df) then
        (case get_column df c of
           Inl e \<Rightarrow> Inl e
         | Inr vs \<Rightarrow> (case agg vs of Inl e \<Rightarrow> Inl e | Inr x \<Rightarrow> Inr (Some x)))
      else Inr None)"

text \<open>
  \<open>df[c].value_counts().to_dict() if c in df.columns else {}\<close>: each value that is not
  missing with the number of its cells (in the order of first occurrence; the order of a
  dict's items is not part of its value).
\<close>

definition value_counts :: "pyval list \<Rightarrow> (pyval \<times> nat) list" where
  "value_counts vs =
     (let present = filter notna vs in map (\<lambda>v. (v, count_list present v)) (remdups present))"

definition column_counts :: "dataframe \<Rightarrow> ustr \<Rightarrow> error + (pyval \<times> nat) list" where
  "column_counts df c =
     (if c \<in> set (columns df) then
        (case get_column df c of Inl e \<Rightarrow> Inl e | Inr vs \<Rightarrow> Inr (value_counts vs))
      else Inr [])"

section \<open>compute_inspection_summary\<close>

text \<open>
  The summary is a dict with fixed keys, so each level of it is a record. The key
  \<open>method\<close> is the field \<open>inspection_method\<close>, and the keys \<open>High\<close>, \<open>Medium\<close> and \<open>Low\<close> of
  \<open>by_risk\<close> are the fields \<open>high\<close>, \<open>medium\<close> and \<open>low\<close>: every summary has all three.
\<close>

record overview =
  total_defects :: int
  pipeline_name :: pyval
  segment_km :: pyval
  diameter_mm :: pyval
  inspection_method :: pyval
  inspection_date :: pyval

record by_risk =
  high :: int
  medium :: int
  low :: int

record statistics =
  avg_depth_pct :: "flt option"
  max_depth_pct :: "flt option"
  avg_erf_b31g :: "flt option"
  min_erf_b31g :: "flt option"
  avg_wall_remaining_mm :: "flt option"

text \<open>
  Table objects live in a store, a list addressed by position; a variable holds an
  address. The summary's \<open>table\<close> is such a reference.
\<close>

type_synonym heap = "dataframe list"

record summary =
  overview :: overview
  by_risk :: by_risk
  by_type :: "(pyval \<times> nat) list"
  by_repair_flag :: "(pyval \<times> nat) list"
  statistics :: statistics
  table :: nat

text \<open>\<open>df = defects_df.copy()\<close>: a new object with the same labels and cells.\<close>

definition copy_frame :: "heap \<Rightarrow> nat \<Rightarrow> nat \<times> heap" where
  "copy_frame h a = (length h, h @ [h ! a])"

text \<open>The names of the tiers as they are stored in the \<open>risk_class\<close> column.\<close>

fun risk_name :: "risk \<Rightarrow> pyval" where
  "risk_name High = PStr (asc ''High'')"
| "risk_name Medium = PStr (asc ''Medium'')"
| "risk_name Low = PStr (asc ''Low'')"

text \<open>The inner function \<open>assign_priority\<close>; \<open>row['risk_class']\<close> raises KeyError without the label.\<close>

definition assign_priority :: "row \<Rightarrow> error + pyval" where
  "assign_priority r =
     (case r risk_class of
        None \<Rightarrow> Inl KeyError
      | Some v \<Rightarrow>
          Inr (if v = PStr (asc ''High'') then PInt 1
               else if v = PStr (asc ''Medium'') then PInt 2
               else PInt 3))"

text \<open>\<open>int((df['risk_class'] == name).sum())\<close>.\<close>

definition count_risk :: "dataframe \<Rightarrow> risk \<Rightarrow> error + int" where
  "count_risk df t =
     (case get_column df risk_class of
        Inl e \<Rightarrow> Inl e
      | Inr vs \<Rightarrow> Inr (int (length (filter (\<lambda>v. v = risk_name t) vs))))"

text \<open>Sequencing of steps that may raise.\<close>

definition ebind :: "error + 'a \<Rightarrow> ('a \<Rightarrow> error + 'b) \<Rightarrow> error + 'b" where
  "ebind m f = (case m of Inl e \<Rightarrow> Inl e | Inr v \<Rightarrow> f v)"

text \<open>\<open>inspection_meta.get(k, 'N/A')\<close>.\<close>

definition meta_get :: "(ustr \<Rightarrow> pyval option) \<Rightarrow> string \<Rightarrow> pyval" where
  "meta_get inspection_meta k =
     (case inspection_meta (asc k) of Some v \<Rightarrow> v | None \<Rightarrow> PStr (asc ''N/A''))"

text \<open>
  The function receives the address of the caller's table. It copies the table, sets the
  two derived columns on the copy, and builds the summary from the copy, in the order
  in which the dict literal evaluates its entries. It returns the summary and the store.
\<close>

definition compute_inspection_summary ::
    "heap \<Rightarrow> nat \<Rightarrow> (ustr \<Rightarrow> pyval option) \<Rightarrow> error + summary \<times> heap" where
  "compute_inspection_summary h defects_df inspection_meta =
     (case copy_frame h defects_df of (df, h1) \<Rightarrow>
      ebind (apply_rows assign_risk_class (columns (h1 ! df)) (rows (h1 ! df))) (\<lambda>rc.
      let h2 = h1[df := set_column (h1 ! df) risk_class (map risk_name rc)] in
      ebind (apply_rows assign_priority (columns (h2 ! df)) (rows (h2 ! df))) (\<lambda>pr.
      let h3 = h2[df := set_column (h2 ! df) repair_priority pr];
          d = h3 ! df
      in
      ebind (count_risk d High) (\<lambda>n_high.
      ebind (count_risk d Medium) (\<lambda>n_medium.
      ebind (count_risk d Low) (\<lambda>n_low.
      ebind (column_counts d anomaly_type) (\<lambda>types.
      ebind (column_counts d repair_flag) (\<lambda>flags.
      ebind (column_stat series_mean d depth_pct) (\<lambda>avg_depth.
      ebind (column_stat series_max d depth_pct) (\<lambda>max_depth.
      ebind (column_stat series_mean d erf_b31g) (\<lambda>avg_erf.
      ebind (column_stat series_min d erf_b31g) (\<lambda>min_erf.
      ebind (column_stat series_mean d wall_thickness_remaining_mm) (\<lambda>avg_wall.
      Inr (\<lparr>overview =
               \<lparr>total_defects = int (length (rows d)),
                pipeline_name = meta_get inspection_meta ''pipeline_name'',
                segment_km = meta_get inspection_meta ''segment_km'',
                diameter_mm = meta_get inspection_meta ''diameter_mm'',
                inspection_method = meta_get inspection_meta ''method'',
                inspection_date = meta_get inspection_meta ''start_date''\<rparr>,
             by_risk = \<lparr>high = n_high, medium = n_medium, low = n_low\<rparr>,
             by_type = types,
             by_repair_flag = flags,
             statistics =
               \<lparr>avg_depth_pct = avg_depth, max_depth_pct = max_depth,
                avg_erf_b31g = avg_erf, min_erf_b31g = min_erf,
                avg_wall_remaining_mm = avg_wall\<rparr>,
             table = df\<rparr>, h3))))))))))))))"

section \<open>compare_with_previous\<close>

record delta =
  defects_change :: int
  high_risk_change :: int
  defects_change_pct :: "real option"
  high_risk_change_pct :: "real option"
  has_previous :: bool

text \<open>
  \<open>round(x, 1)\<close>: to the nearest multiple of one tenth, a tie going to the even multiple.
\<close>

definition py_round1 :: "real \<Rightarrow> real" where
  "py_round1 x =
     (let y = x * 10; f = \<lfloor>y\<rfloor>; d = y - of_int f
      in of_int (if d < 1 / 2 then f else if d > 1 / 2 then f + 1
                 else if even f then f else f + 1) / 10)"

definition change_pct :: "int \<Rightarrow> int \<Rightarrow> real" where
  "change_pct curr_n prev_n =
     py_round1 (if prev_n > 0 then of_int (curr_n - prev_n) / of_int prev_n * 100 else 0)"

text \<open>
  \<open>previous_summary\<close> is a summary or \<open>None\<close>; the dict returned without a previous
  summary has no percentage entries.
\<close>

definition compare_with_previous :: "summary \<Rightarrow> summary option \<Rightarrow> delta" where
  "compare_with_previous current_summary previous_summary =
     (case previous_summary of
        None \<Rightarrow>
          \<lparr>defects_change = 0, high_risk_change = 0, defects_change_pct = None,
           high_risk_change_pct = None, has_previous = False\<rparr>
      | Some prev \<Rightarrow>
          (let curr_total = total_defects (overview current_summary);
               prev_total = total_defects (overview prev);
               curr_high = high (by_risk current_summary);
               prev_high = high (by_risk prev)
           in \<lparr>defects_change = curr_total - prev_total,
               high_risk_change = curr_high - prev_high,
               defects_change_pct = Some (change_pct curr_total prev_total),
               high_risk_change_pct = Some (change_pct curr_high prev_high),
               has_previous = True\<rparr>))"



definition frame_two_rows :: dataframe where
  "frame_two_rows =
     \<lparr>columns = [depth_pct, erf_b31g],
      rows = [[PFloat (Fin 30), PFloat (Fin 0.9)], [PFloat (Fin 50), PFloat NaN]]\<rparr>"
text \<open>The percentage change of the specification, before rounding.\<close>

definition percent_change :: "int \<Rightarrow> int \<Rightarrow> real" where
  "percent_change curr_n prev_n = of_int (curr_n - prev_n) / of_int prev_n * 100"

text \<open>A summary with given total and High counts, for the examples.\<close>

definition summary_with :: "int \<Rightarrow> int \<Rightarrow> summary" where
  "summary_with n_total n_high =
     \<lparr>overview =
        \<lparr>total_defects = n_total, pipeline_name = PStr (asc ''N/A''),
         segment_km = PStr (asc ''N/A''), diameter_mm = PStr (asc ''N/A''),
         inspection_method = PStr (asc ''N/A''), inspection_date = PStr (asc ''N/A'')\<rparr>,
      by_risk = \<lparr>high = n_high, medium = 0, low = n_total - n_high\<rparr>,
      by_type = [], by_repair_flag = [],
      statistics =
        \<lparr>avg_depth_pct = None, max_depth_pct = None, avg_erf_b31g = None,
         min_erf_b31g = None, avg_wall_remaining_mm = None\<rparr>,
      table = 0\<rparr>"

text \<open>
  The data model's invariant on a table: it is a well-formed frame, and every row keeps
  the invariant on numeric fields.
\<close>

definition frame_ok :: "dataframe \<Rightarrow> bool" where
  "frame_ok df =
     (wf_frame df \<and> list_all (\<lambda>r. numeric_fields_ok (row_of (columns df) r)) (rows df))"

text \<open>The repair priority of a tier, as the specification gives it: 1, 2, 3.\<close>

fun priority_of :: "risk \<Rightarrow> pyval" where
  "priority_of High = PInt 1"
| "priority_of Medium = PInt 2"
| "priority_of Low = PInt 3"



text \<open>What the call returns: the summary, or nothing when it raised.\<close>

definition returned_summary :: "error + summary \<times> heap \<Rightarrow> summary option" where
  "returned_summary res = (case res of Inl e \<Rightarrow> None | Inr (s, h') \<Rightarrow> Some s)"

text \<open>The store after the call; the store before it when the call raised.\<close>

definition store_after :: "heap \<Rightarrow> error + summary \<times> heap \<Rightarrow> heap" where
  "store_after h res = (case res of Inl e \<Rightarrow> h | Inr (s, h') \<Rightarrow> h')"

section \<open>Properties of the classifier\<close>

lemma py_in_iff: "py_in p s \<longleftrightarrow> (\<exists>a b. s = a @ p @ b)"
proof (induction s)
  case Nil
  then show ?case by auto
next
  case (Cons x xs)
  show ?case
  proof
    assume "py_in p (x # xs)"
    then consider "prefix p (x # xs)" | "py_in p xs" by auto
    then show "\<exists>a b. x # xs = a @ p @ b"
    proof cases
      case 1
      then obtain b where "x # xs = p @ b" by (auto simp: prefix_def)
      then have "x # xs = [] @ p @ b" by simp
      then show ?thesis by blast
    next
      case 2
      then obtain a b where "xs = a @ p @ b" using Cons.IH by blast
      then have "x # xs = (x # a) @ p @ b" by simp
      then show ?thesis by blast
    qed
  next
    assume "\<exists>a b. x # xs = a @ p @ b"
    then obtain a b where ab: "x # xs = a @ p @ b" by blast
    show "py_in p (x # xs)"
    proof (cases a)
      case Nil
      then have "prefix p (x # xs)" using ab by (simp add: prefix_def)
      then show ?thesis by simp
    next
      case (Cons y ys)
      then have "xs = ys @ p @ b" using ab by simp
      then have "py_in p xs" using Cons.IH by blast
      then show ?thesis by simp
    qed
  qed
qed

lemma keys_distinct:
  "distinct [repair_flag, erf_b31g, erf_dnv, wall_thickness_remaining_mm, depth_pct]"
  by (simp add: repair_flag_def erf_b31g_def erf_dnv_def wall_thickness_remaining_mm_def
      depth_pct_def asc_def)

lemma ret_if_Inr [simp]: "ret_if (Inr b) t rest = (if b then Inr t else rest)"
  by (simp add: ret_if_def)

lemma notna_lt_cell: "not_str (Some v) \<Longrightarrow> notna_lt v c = Inr (cell_lt v c)"
  by (cases v rule: isna.cases) (simp_all add: notna_lt_def notna_def)

lemma notna_gt_cell: "not_str (Some v) \<Longrightarrow> notna_gt v c = Inr (cell_gt v c)"
  by (cases v rule: isna.cases) (simp_all add: notna_gt_def notna_def)

lemma get_lt:
  "not_str (r k) \<Longrightarrow> not_str (Some d) \<Longrightarrow>
   notna_lt (row_get r k d) c = Inr (present_lt r k c \<or> (r k = None \<and> cell_lt d c))"
  by (cases "r k") (simp_all add: row_get_def present_lt_def notna_lt_cell)

lemma get_gt:
  "not_str (r k) \<Longrightarrow> not_str (Some d) \<Longrightarrow>
   notna_gt (row_get r k d) c = Inr (present_gt r k c \<or> (r k = None \<and> cell_gt d c))"
  by (cases "r k") (simp_all add: row_get_def present_gt_def notna_gt_cell)

lemma get_flag: "has_marker (row_get r repair_flag (PStr [])) = flag_marked r"
  by (cases "r repair_flag")
    (simp_all add: row_get_def flag_marked_def marker_mandatory_def marker_immediate_def
      lower_def)

text \<open>
  On a record that keeps the data model's invariant the classifier raises nothing, and
  its result is decided by the nine rules in their order.
\<close>

lemma assign_risk_class_rules:
  assumes "numeric_fields_ok r"
  shows "assign_risk_class r = Inr
     (if high_rule r then High
      else if present_lt r erf_b31g 0.5 \<or> present_lt r erf_dnv 0.5 \<or> present_gt r depth_pct 25
      then Medium else Low)"
  using assms
  by (simp add: assign_risk_class_def get_flag get_lt get_gt numeric_fields_ok_def Let_def
      high_rule_def erf_high_risk_def erf_medium_risk_def wall_thickness_critical_def
      depth_critical_def depth_high_def)

text \<open>
  Taking a numeric field that holds the missing marker out of the record changes nothing:
  the default that \<open>row.get\<close> then supplies triggers no rule either.
\<close>

lemma drop_missing_field:
  assumes k: "k \<in> {erf_b31g, erf_dnv, wall_thickness_remaining_mm, depth_pct}"
    and m: "missing (r k)"
  shows "assign_risk_class r = assign_risk_class (r(k := None))"
proof -
  let ?r = "r(k := None)"
  have flag: "row_get ?r repair_flag d = row_get r repair_flag d" for d
    using k keys_distinct by (auto simp: row_get_def)
  have lt: "notna_lt (row_get ?r j d) c = notna_lt (row_get r j d) c"
    if "\<not> cell_lt d c" "not_str (Some d)" for j d c
  proof (cases "j = k")
    case True
    show ?thesis
    proof (cases "r k")
      case None
      then show ?thesis using True by (simp add: row_get_def)
    next
      case (Some v)
      then have "isna v" using m by simp
      then have "notna_lt v c = Inr False" by (simp add: notna_lt_def notna_def)
      then show ?thesis using True Some that by (simp add: row_get_def notna_lt_cell)
    qed
  next
    case False
    then show ?thesis by (simp add: row_get_def)
  qed
  have gt: "notna_gt (row_get ?r j d) c = notna_gt (row_get r j d) c"
    if "\<not> cell_gt d c" "not_str (Some d)" for j d c
  proof (cases "j = k")
    case True
    show ?thesis
    proof (cases "r k")
      case None
      then show ?thesis using True by (simp add: row_get_def)
    next
      case (Some v)
      then have "isna v" using m by simp
      then have "notna_gt v c = Inr False" by (simp add: notna_gt_def notna_def)
      then show ?thesis using True Some that by (simp add: row_get_def notna_gt_cell)
    qed
  next
    case False
    then show ?thesis by (simp add: row_get_def)
  qed
  show ?thesis
    by (simp add: assign_risk_class_def Let_def flag lt gt erf_high_risk_def
        erf_medium_risk_def wall_thickness_critical_def depth_critical_def depth_high_def)
qed

lemma missing_not_str: "missing x \<Longrightarrow> not_str x"
  by (cases x rule: not_str.cases) simp_all

lemma missing_not_present:
  assumes "missing (r k)"
  shows "\<not> present_lt r k c \<and> \<not> present_gt r k c"
proof (cases "r k")
  case None
  then show ?thesis by (simp add: present_lt_def present_gt_def)
next
  case (Some v)
  then have "isna v" using assms by simp
  then have "\<not> cell_lt v c \<and> \<not> cell_gt v c"
    by (cases v rule: isna.cases) simp_all
  then show ?thesis using Some by (simp add: present_lt_def present_gt_def)
qed

lemma scenario_simps:
  "scenario_high erf_b31g = Some (PFloat (Fin 0.45))"
  "scenario_high erf_dnv = None"
  "scenario_high wall_thickness_remaining_mm = Some (PInt 8)"
  "scenario_high depth_pct = Some (PInt 10)"
  "scenario_high repair_flag = Some (PStr [])"
  "scenario_medium erf_b31g = Some (PFloat (Fin 0.6))"
  "scenario_medium erf_dnv = None"
  "scenario_medium wall_thickness_remaining_mm = Some (PInt 10)"
  "scenario_medium depth_pct = Some (PInt 30)"
  "scenario_medium repair_flag = Some (PStr [])"
  "scenario_all_missing erf_b31g = Some (PFloat NaN)"
  "scenario_all_missing erf_dnv = Some (PFloat NaN)"
  "scenario_all_missing wall_thickness_remaining_mm = Some (PFloat NaN)"
  "scenario_all_missing depth_pct = Some (PFloat NaN)"
  "scenario_all_missing repair_flag = Some (PStr [])"
  "scenario_depth_only erf_b31g = Some (PFloat (Fin 0.9))"
  "scenario_depth_only erf_dnv = None"
  "scenario_depth_only wall_thickness_remaining_mm = Some (PInt 10)"
  "scenario_depth_only depth_pct = Some (PInt 30)"
  "scenario_depth_only repair_flag = Some (PStr [])"
  using keys_distinct
  by (auto simp: scenario_high_def scenario_medium_def scenario_all_missing_def
      scenario_depth_only_def)

text \<open>
  C1. A record whose repair flag is a text containing one of the two markers, in any
  letter case, is classified High, whatever its other fields hold or lack.
\<close>

theorem C1_repair_marker_high:
  assumes "r repair_flag = Some (PStr s)"
    and "py_in marker_mandatory (lower s) \<or> py_in marker_immediate (lower s)"
  shows "assign_risk_class r = Inr High"
  using assms by (simp add: assign_risk_class_def row_get_def)

theorem C1_repair_marker_high_witness:
  "scenario_flag_only repair_flag = Some (PStr flag_in_capitals) \<and>
   py_in marker_mandatory (lower flag_in_capitals) \<and>
   scenario_flag_only erf_b31g = None \<and> scenario_flag_only depth_pct = None \<and>
   assign_risk_class scenario_flag_only = Inr High"
proof -
  have m: "py_in marker_mandatory (lower flag_in_capitals)"
    by (simp add: marker_mandatory_def flag_in_capitals_def lower_def lower_cp_def)
  have n: "scenario_flag_only erf_b31g = None" "scenario_flag_only depth_pct = None"
    using keys_distinct by (auto simp: scenario_flag_only_def)
  show ?thesis
    using C1_repair_marker_high [of scenario_flag_only flag_in_capitals] m n
    by (simp add: scenario_flag_only_def)
qed

text \<open>
  C2. A record that keeps the data model's invariant and whose \<open>erf_b31g\<close> is present and
  below 0.8, or whose \<open>erf_dnv\<close> is present and below 0.8, is classified High. The scenario
  record with \<open>erf_b31g = 0.45\<close>, depth 10, remaining wall 8 and an empty repair flag is
  classified High, although its ERF is below the Medium threshold too.
\<close>

theorem C2_erf_below_high_threshold:
  "(numeric_fields_ok r \<longrightarrow> present_lt r erf_b31g 0.8 \<or> present_lt r erf_dnv 0.8 \<longrightarrow>
      assign_risk_class r = Inr High) \<and>
   present_lt scenario_high erf_b31g 0.5 \<and>
   assign_risk_class scenario_high = Inr High"
proof -
  have ok: "numeric_fields_ok scenario_high"
    by (simp add: numeric_fields_ok_def scenario_simps)
  have lt: "present_lt scenario_high erf_b31g 0.5" "present_lt scenario_high erf_b31g 0.8"
    by (simp_all add: present_lt_def scenario_simps)
  have "assign_risk_class scenario_high = Inr High"
    using lt by (simp add: assign_risk_class_rules [OF ok] high_rule_def)
  moreover have "numeric_fields_ok r \<longrightarrow> present_lt r erf_b31g 0.8 \<or> present_lt r erf_dnv 0.8
      \<longrightarrow> assign_risk_class r = Inr High"
    by (auto simp: assign_risk_class_rules high_rule_def)
  ultimately show ?thesis using lt by blast
qed

theorem C2_erf_below_high_threshold_witness:
  "numeric_fields_ok scenario_high \<and> present_lt scenario_high erf_b31g 0.8 \<and>
   assign_risk_class scenario_high = Inr High"
  using C2_erf_below_high_threshold [of scenario_high]
  by (simp add: numeric_fields_ok_def present_lt_def scenario_simps)

text \<open>
  C3. A record that keeps the data model's invariant and triggers none of the five High
  rules is classified Medium when \<open>erf_b31g\<close> is present and below 0.5, or \<open>erf_dnv\<close> is
  present and below 0.5, or \<open>depth_pct\<close> is present and above 25. The scenario record with
  \<open>erf_b31g = 0.6\<close>, depth 30, remaining wall 10 and an empty repair flag is not such a
  record: 0.6 is below the High threshold 0.8, rule 2 fires, and it is classified High.
  With the ERF at 0.9 the record is classified Medium, by its depth.
\<close>

theorem C3_medium_after_high_rules:
  "(numeric_fields_ok r \<longrightarrow> \<not> high_rule r \<longrightarrow>
      present_lt r erf_b31g 0.5 \<or> present_lt r erf_dnv 0.5 \<or> present_gt r depth_pct 25 \<longrightarrow>
      assign_risk_class r = Inr Medium) \<and>
   high_rule scenario_medium \<and>
   assign_risk_class scenario_medium = Inr High \<and>
   assign_risk_class scenario_depth_only = Inr Medium"
proof -
  have ok: "numeric_fields_ok scenario_medium" "numeric_fields_ok scenario_depth_only"
    by (simp_all add: numeric_fields_ok_def scenario_simps)
  have h: "high_rule scenario_medium"
    by (simp add: high_rule_def present_lt_def scenario_simps)
  have nh: "\<not> high_rule scenario_depth_only"
    by (simp add: high_rule_def present_lt_def present_gt_def flag_marked_def scenario_simps
        marker_mandatory_def marker_immediate_def lower_def)
  have gt: "present_gt scenario_depth_only depth_pct 25"
    by (simp add: present_gt_def scenario_simps)
  have "assign_risk_class scenario_medium = Inr High"
    using h by (simp add: assign_risk_class_rules [OF ok(1)])
  moreover have "assign_risk_class scenario_depth_only = Inr Medium"
    using nh gt by (simp add: assign_risk_class_rules [OF ok(2)])
  moreover have "numeric_fields_ok r \<longrightarrow> \<not> high_rule r \<longrightarrow>
      present_lt r erf_b31g 0.5 \<or> present_lt r erf_dnv 0.5 \<or> present_gt r depth_pct 25 \<longrightarrow>
      assign_risk_class r = Inr Medium"
    by (auto simp: assign_risk_class_rules)
  ultimately show ?thesis using h by blast
qed

theorem C3_medium_after_high_rules_witness:
  "numeric_fields_ok scenario_depth_only \<and> \<not> high_rule scenario_depth_only \<and>
   present_gt scenario_depth_only depth_pct 25 \<and>
   assign_risk_class scenario_depth_only = Inr Medium"
  using C3_medium_after_high_rules [of scenario_depth_only]
  by (simp add: numeric_fields_ok_def present_gt_def present_lt_def high_rule_def
      flag_marked_def scenario_simps marker_mandatory_def marker_immediate_def lower_def)

text \<open>
  The scenario of C3 as the specification states it fails: the record with
  \<open>erf_b31g = 0.6\<close> and depth 30 is classified High, not Medium.
\<close>

theorem C3_scenario_counterexample:
  "assign_risk_class scenario_medium \<noteq> Inr Medium"
proof -
  have ok: "numeric_fields_ok scenario_medium"
    by (simp add: numeric_fields_ok_def scenario_simps)
  have h: "high_rule scenario_medium"
    by (simp add: high_rule_def present_lt_def scenario_simps)
  show ?thesis using h by (simp add: assign_risk_class_rules [OF ok])
qed

text \<open>
  C7. On every record that keeps the data model's invariant, whichever of its fields are
  present, missing or absent, the classifier returns one of High, Medium and Low and
  raises nothing. A numeric field that holds the missing marker triggers no rule: the
  result is the one for the record without that field. A record whose four numeric fields
  are all missing or absent and whose repair flag carries no marker is classified Low.
\<close>

theorem C7_classifier_total:
  "(numeric_fields_ok r \<longrightarrow> (\<exists>t \<in> {High, Medium, Low}. assign_risk_class r = Inr t)) \<and>
   (k \<in> {erf_b31g, erf_dnv, wall_thickness_remaining_mm, depth_pct} \<longrightarrow> missing (r k) \<longrightarrow>
      assign_risk_class r = assign_risk_class (r(k := None))) \<and>
   (missing (r erf_b31g) \<longrightarrow> missing (r erf_dnv) \<longrightarrow>
    missing (r wall_thickness_remaining_mm) \<longrightarrow> missing (r depth_pct) \<longrightarrow>
    \<not> flag_marked r \<longrightarrow> assign_risk_class r = Inr Low)"
proof (intro conjI impI)
  assume "numeric_fields_ok r"
  then show "\<exists>t \<in> {High, Medium, Low}. assign_risk_class r = Inr t"
    by (simp add: assign_risk_class_rules)
next
  assume "k \<in> {erf_b31g, erf_dnv, wall_thickness_remaining_mm, depth_pct}"
    and "missing (r k)"
  then show "assign_risk_class r = assign_risk_class (r(k := None))"
    by (rule drop_missing_field)
next
  assume m: "missing (r erf_b31g)" "missing (r erf_dnv)"
    "missing (r wall_thickness_remaining_mm)" "missing (r depth_pct)"
    and f: "\<not> flag_marked r"
  note ns = missing_not_str
  note np = missing_not_present
  have ok: "numeric_fields_ok r"
    using m ns by (simp add: numeric_fields_ok_def)
  show "assign_risk_class r = Inr Low"
    using m f np by (simp add: assign_risk_class_rules [OF ok] high_rule_def)
qed

theorem C7_classifier_total_witness:
  "numeric_fields_ok scenario_all_missing \<and>
   erf_b31g \<in> {erf_b31g, erf_dnv, wall_thickness_remaining_mm, depth_pct} \<and>
   missing (scenario_all_missing erf_b31g) \<and> missing (scenario_all_missing erf_dnv) \<and>
   missing (scenario_all_missing wall_thickness_remaining_mm) \<and>
   missing (scenario_all_missing depth_pct) \<and> \<not> flag_marked scenario_all_missing \<and>
   assign_risk_class scenario_all_missing = Inr Low \<and>
   assign_risk_class (scenario_all_missing(erf_b31g := None)) = Inr Low"
proof -
  have h: "numeric_fields_ok scenario_all_missing"
    "missing (scenario_all_missing erf_b31g)" "missing (scenario_all_missing erf_dnv)"
    "missing (scenario_all_missing wall_thickness_remaining_mm)"
    "missing (scenario_all_missing depth_pct)" "\<not> flag_marked scenario_all_missing"
    by (simp_all add: numeric_fields_ok_def scenario_simps flag_marked_def lower_def
        marker_mandatory_def marker_immediate_def)
  from C7_classifier_total [of scenario_all_missing erf_b31g] h
  have "assign_risk_class scenario_all_missing = Inr Low"
    and "assign_risk_class scenario_all_missing =
         assign_risk_class (scenario_all_missing(erf_b31g := None))"
    by blast+
  then show ?thesis using h by simp
qed

section \<open>Properties of clean_numeric\<close>

lemma strip_replace: "strip (replace_comma s) = replace_comma (strip s)"
proof -
  have sp: "is_space \<circ> (\<lambda>c. if c = 44 then 46 else c) = is_space"
    by (auto simp: is_space_def fun_eq_iff)
  show ?thesis
    by (simp add: strip_def replace_comma_def dropWhile_map rev_map sp)
qed

lemma clean_numeric_str:
  "clean_numeric (PStr s) =
     Inr (case py_float (replace_comma (strip s)) of Inl e \<Rightarrow> NaN | Inr v \<Rightarrow> v)"
proof (cases "s = []")
  case True
  then show ?thesis
    by (simp add: clean_numeric_def py_float_def strip_def float_strip_def replace_comma_def)
next
  case False
  then show ?thesis
    by (simp add: clean_numeric_def strip_replace split: sum.splits)
qed

lemmas float_parse_defs =
  py_float_def float_strip_def is_float_space_def strip_def replace_comma_def is_space_def
  digit_value_def decimal_zeros_def parse_unsigned_def lower_def lower_cp_def asc_def
  digits_value_def scale10_def float_of_exact_def float_bound_def

lemma clean_numeric_twelve_comma_five:
  "clean_numeric (PStr [49, 50, 44, 53]) = Inr (Fin 12.5)"
  by (simp add: clean_numeric_def float_parse_defs)

lemma clean_numeric_fullwidth:
  "clean_numeric (PStr fullwidth_twelve_point_five) = Inr (Fin 12.5)"
  by (simp add: clean_numeric_def fullwidth_twelve_point_five_def float_parse_defs)

lemma clean_numeric_unparsable:
  "clean_numeric (PStr (asc ''1,2,3'')) = Inr NaN"
  by (simp add: clean_numeric_def float_parse_defs)

lemma float_bound_below: "float_bound < 10 ^ 400"
proof -
  have "float_bound \<le> (2::int) ^ 1024" by (simp add: float_bound_def)
  also have "\<dots> < (2::int) ^ 1200" by (rule power_strict_increasing) simp_all
  also have "\<dots> = (8::int) ^ 400"
    using power_mult [of "2::int" 3 400] by simp
  also have "\<dots> \<le> (10::int) ^ 400" by (rule power_mono) simp_all
  finally show ?thesis .
qed

text \<open>
  What \<open>clean_numeric\<close> does on each kind of value. It raises on an int beyond the range
  of binary64 and on nothing else.
\<close>

lemma clean_numeric_raises_iff:
  "(\<exists>e. clean_numeric x = Inl e) \<longleftrightarrow> (\<exists>n. x = PInt n \<and> float_bound \<le> \<bar>n\<bar>)"
  by (cases x)
    (auto simp: clean_numeric_def float_of_int_def Let_def split: sum.splits if_splits)

lemma clean_numeric_values:
  "(isna x \<or> x = PStr [] \<longrightarrow> clean_numeric x = Inr NaN) \<and>
   (\<bar>n\<bar> < float_bound \<longrightarrow> clean_numeric (PInt n) = Inr (Fin (of_int n))) \<and>
   clean_numeric (PFloat f) = Inr f \<and>
   (py_float (replace_comma (strip s)) = Inl e \<longrightarrow> clean_numeric (PStr s) = Inr NaN)"
proof (intro conjI impI)
  show "clean_numeric x = Inr NaN" if "isna x \<or> x = PStr []"
    using that by (auto simp: clean_numeric_def)
  show "clean_numeric (PInt n) = Inr (Fin (of_int n))" if "\<bar>n\<bar> < float_bound"
    using that by (simp add: clean_numeric_def float_of_int_def)
  show "clean_numeric (PFloat f) = Inr f"
    by (cases f) (simp_all add: clean_numeric_def)
  show "clean_numeric (PStr s) = Inr NaN" if "py_float (replace_comma (strip s)) = Inl e"
    using that by (simp add: clean_numeric_str)
qed

text \<open>
  C5. The specification says that \<open>clean_numeric\<close> raises on no value. On the int
  \<open>10^400\<close> the function raises OverflowError: \<open>float(val)\<close> for a number stands before the
  \<open>try\<close>. The branch for a text does what the specification says: a text that does not
  parse gives the missing marker, and the text \<open>12,5\<close> gives 12.5.
\<close>

theorem C5_int_overflow_raises:
  "clean_numeric (PInt (10 ^ 400)) = Inl OverflowError \<and>
   clean_numeric (PStr (asc ''1,2,3'')) = Inr NaN \<and>
   clean_numeric (PStr [49, 50, 44, 53]) = Inr (Fin 12.5)"
proof -
  have "\<not> \<bar>(10::int) ^ 400\<bar> < float_bound"
    using float_bound_below by simp
  then have "clean_numeric (PInt (10 ^ 400)) = Inl OverflowError"
    by (simp add: clean_numeric_def float_of_int_def)
  then show ?thesis
    using clean_numeric_unparsable clean_numeric_twelve_comma_five by simp
qed

section \<open>Properties of the renaming\<close>

lemma first_match_none:
  "(\<forall>j < length m. \<not> key_matches (fst (m ! j)) h) \<Longrightarrow> first_match m h = None"
proof (induction m)
  case Nil
  then show ?case by simp
next
  case (Cons kv m)
  obtain k v where kv: "kv = (k, v)" by (cases kv)
  from Cons.prems have "\<not> key_matches k h" using kv by force
  moreover from Cons.prems have "\<forall>j < length m. \<not> key_matches (fst (m ! j)) h" by force
  ultimately show ?case using Cons.IH kv by simp
qed

lemma first_match_first:
  "j < length m \<Longrightarrow> key_matches (fst (m ! j)) h \<Longrightarrow>
   (\<forall>i < j. \<not> key_matches (fst (m ! i)) h) \<Longrightarrow> first_match m h = Some (snd (m ! j))"
proof (induction m arbitrary: j)
  case Nil
  then show ?case by simp
next
  case (Cons kv m)
  obtain k v where kv: "kv = (k, v)" by (cases kv)
  show ?case
  proof (cases j)
    case 0
    then show ?thesis using Cons.prems kv by simp
  next
    case (Suc j')
    then have "\<not> key_matches k h" using Cons.prems(3) kv by force
    moreover have "first_match m h = Some (snd (m ! j'))"
    proof (rule Cons.IH)
      show "j' < length m" using Cons.prems(1) Suc by simp
      show "key_matches (fst (m ! j')) h" using Cons.prems(2) Suc by simp
      show "\<forall>i < j'. \<not> key_matches (fst (m ! i)) h"
      proof (intro allI impI)
        fix i assume "i < j'"
        then have "Suc i < j" using Suc by simp
        then have "\<not> key_matches (fst ((kv # m) ! Suc i)) h" using Cons.prems(3) by blast
        then show "\<not> key_matches (fst (m ! i)) h" by simp
      qed
    qed
    ultimately show ?thesis using kv Suc by simp
  qed
qed

lemma build_rename_dict_apply:
  "build_rename_dict cols d c =
     (if c \<in> set cols \<and> first_match COLUMN_MAPPING c \<noteq> None
      then first_match COLUMN_MAPPING c else d c)"
  by (induction cols arbitrary: d) (auto split: option.splits)

lemma rename_columns_nth:
  assumes "i < length cols"
  shows "rename_columns cols ! i =
     (case first_match COLUMN_MAPPING (cols ! i) of Some val \<Rightarrow> val | None \<Rightarrow> cols ! i)"
  using assms
  by (auto simp: rename_columns_def rename_def build_rename_dict_apply split: option.splits)

lemma first_match_mean_depth:
  "first_match COLUMN_MAPPING header_mean_depth = Some (asc ''depth_pct'')"
  by (simp add: COLUMN_MAPPING_def header_mean_depth_def key_matches_def lower_def lower_cp_def)

lemma first_match_unknown:
  "first_match COLUMN_MAPPING header_unknown = None"
  by (simp add: COLUMN_MAPPING_def header_unknown_def key_matches_def lower_def lower_cp_def
      asc_def)

text \<open>
  C9. Renaming keeps the number and order of the columns. A header in which the key of
  some mapping entry occurs, letter case ignored, gets the canonical name of the first
  such entry in the table's order, and of no other; a header in which no key occurs keeps
  its name. So the header "Srednyaya glubina [%]" becomes \<open>depth_pct\<close>, the target of the
  earlier key "glubina [%]", and not \<open>depth_avg_pct\<close>.
\<close>

theorem C9_rename_first_match:
  "length (rename_columns cols) = length cols \<and>
   (i < length cols \<longrightarrow> j < length COLUMN_MAPPING \<longrightarrow>
      key_matches (fst (COLUMN_MAPPING ! j)) (cols ! i) \<longrightarrow>
      (\<forall>j' < j. \<not> key_matches (fst (COLUMN_MAPPING ! j')) (cols ! i)) \<longrightarrow>
      rename_columns cols ! i = snd (COLUMN_MAPPING ! j)) \<and>
   (i < length cols \<longrightarrow>
      (\<forall>j < length COLUMN_MAPPING. \<not> key_matches (fst (COLUMN_MAPPING ! j)) (cols ! i)) \<longrightarrow>
      rename_columns cols ! i = cols ! i) \<and>
   rename_columns [header_unknown, header_mean_depth] = [header_unknown, asc ''depth_pct'']"
proof (intro conjI impI)
  show "length (rename_columns cols) = length cols"
    by (simp add: rename_columns_def rename_def)
  show "rename_columns cols ! i = snd (COLUMN_MAPPING ! j)"
    if "i < length cols" "j < length COLUMN_MAPPING"
      "key_matches (fst (COLUMN_MAPPING ! j)) (cols ! i)"
      "\<forall>j' < j. \<not> key_matches (fst (COLUMN_MAPPING ! j')) (cols ! i)"
    using that by (simp add: rename_columns_nth first_match_first)
  show "rename_columns cols ! i = cols ! i"
    if "i < length cols"
      "\<forall>j < length COLUMN_MAPPING. \<not> key_matches (fst (COLUMN_MAPPING ! j)) (cols ! i)"
    using that by (simp add: rename_columns_nth first_match_none)
  show "rename_columns [header_unknown, header_mean_depth] = [header_unknown, asc ''depth_pct'']"
  proof -
    have "header_unknown \<noteq> header_mean_depth"
      by (simp add: header_unknown_def header_mean_depth_def asc_def)
    then show ?thesis
      by (simp add: rename_columns_def rename_def build_rename_dict_apply
          first_match_mean_depth first_match_unknown)
  qed
qed

theorem C9_rename_first_match_witness:
  "(1::nat) < length [header_unknown, header_mean_depth] \<and>
   (11::nat) < length COLUMN_MAPPING \<and>
   key_matches (fst (COLUMN_MAPPING ! 11)) ([header_unknown, header_mean_depth] ! 1) \<and>
   list_all (\<lambda>kv. \<not> key_matches (fst kv) header_mean_depth) (take 11 COLUMN_MAPPING) \<and>
   list_all (\<lambda>kv. \<not> key_matches (fst kv) header_unknown) COLUMN_MAPPING \<and>
   rename_columns [header_unknown, header_mean_depth] ! 1 = asc ''depth_pct'' \<and>
   rename_columns [header_unknown, header_mean_depth] ! 0 = header_unknown"
proof -
  let ?cols = "[header_unknown, header_mean_depth]"
  have len: "(11::nat) < length COLUMN_MAPPING"
    by (simp add: COLUMN_MAPPING_def)
  have at: "COLUMN_MAPPING ! 11 =
      ([1075, 1083, 1091, 1073, 1080, 1085, 1072, 32, 91, 37, 93], asc ''depth_pct'')"
    by (simp add: COLUMN_MAPPING_def)
  have hit: "key_matches (fst (COLUMN_MAPPING ! 11)) (?cols ! 1)"
    by (simp add: at key_matches_def header_mean_depth_def lower_def lower_cp_def)
  have early: "\<forall>kv \<in> set (take 11 COLUMN_MAPPING). \<not> key_matches (fst kv) header_mean_depth"
    by (simp add: COLUMN_MAPPING_def header_mean_depth_def key_matches_def lower_def lower_cp_def)
  have before: "\<forall>j' < 11. \<not> key_matches (fst (COLUMN_MAPPING ! j')) (?cols ! 1)"
  proof (intro allI impI)
    fix j' :: nat
    assume j: "j' < 11"
    then have "take 11 COLUMN_MAPPING ! j' \<in> set (take 11 COLUMN_MAPPING)"
      using len by (intro nth_mem) simp
    moreover have "take 11 COLUMN_MAPPING ! j' = COLUMN_MAPPING ! j'"
      using j by simp
    ultimately show "\<not> key_matches (fst (COLUMN_MAPPING ! j')) (?cols ! 1)"
      using early by auto
  qed
  have nowhere: "\<forall>kv \<in> set COLUMN_MAPPING. \<not> key_matches (fst kv) header_unknown"
    by (simp add: COLUMN_MAPPING_def header_unknown_def key_matches_def lower_def lower_cp_def
        asc_def)
  then have none: "\<forall>j < length COLUMN_MAPPING.
      \<not> key_matches (fst (COLUMN_MAPPING ! j)) (?cols ! 0)"
    by simp
  have "rename_columns ?cols ! 1 = asc ''depth_pct''"
    using C9_rename_first_match [of ?cols 1 11] len hit before by (simp add: at)
  moreover have "rename_columns ?cols ! 0 = header_unknown"
    using C9_rename_first_match [of ?cols 0 0] none by simp
  moreover have "list_all (\<lambda>kv. \<not> key_matches (fst kv) header_mean_depth)
      (take 11 COLUMN_MAPPING)"
    using early by (simp only: list_all_iff)
  moreover have "list_all (\<lambda>kv. \<not> key_matches (fst kv) header_unknown) COLUMN_MAPPING"
    using nowhere by (simp only: list_all_iff)
  ultimately show ?thesis using len hit by simp
qed

section \<open>Properties of the comparison\<close>

lemma py_round1_tenths: "\<exists>k::int. py_round1 x = of_int k / 10"
  by (auto simp: py_round1_def Let_def)

lemma py_round1_near: "\<bar>py_round1 x - x\<bar> \<le> 1 / 20"
proof -
  define y where "y = x * 10"
  define f where "f = \<lfloor>y\<rfloor>"
  have lo: "of_int f \<le> y" and hi: "y < of_int f + 1"
    unfolding f_def by linarith+
  have x: "x = y / 10" by (simp add: y_def)
  consider "y - of_int f < 1 / 2" | "y - of_int f > 1 / 2" | "y - of_int f = 1 / 2"
    by linarith
  then show ?thesis
  proof cases
    case 1
    then have "py_round1 x = of_int f / 10"
      by (simp add: py_round1_def Let_def y_def [symmetric] f_def [symmetric])
    then show ?thesis using 1 lo x by linarith
  next
    case 2
    then have "py_round1 x = (of_int f + 1) / 10"
      by (simp add: py_round1_def Let_def y_def [symmetric] f_def [symmetric])
    then have "py_round1 x = of_int f / 10 + 1 / 10"
      by (simp add: add_divide_distrib)
    then show ?thesis using 2 hi x by linarith
  next
    case 3
    then have "py_round1 x = of_int f / 10 \<or> py_round1 x = (of_int f + 1) / 10"
      by (simp add: py_round1_def Let_def y_def [symmetric] f_def [symmetric])
    then have "py_round1 x = of_int f / 10 \<or> py_round1 x = of_int f / 10 + 1 / 10"
      by (simp add: add_divide_distrib)
    then show ?thesis using 3 x by linarith
  qed
qed

lemma py_round1_zero: "py_round1 0 = 0"
  by (simp add: py_round1_def)

lemma change_pct_zero: "change_pct c 0 = 0"
  by (simp add: change_pct_def py_round1_zero)

lemma change_pct_props:
  "(\<exists>k::int. change_pct c p = of_int k / 10) \<and>
   (p > 0 \<longrightarrow> \<bar>change_pct c p - percent_change c p\<bar> \<le> 1 / 20) \<and>
   (p = 0 \<longrightarrow> change_pct c p = 0)"
  using py_round1_tenths [of "if p > 0 then of_int (c - p) / of_int p * 100 else 0"]
    py_round1_near [of "of_int (c - p) / of_int p * 100"]
  by (auto simp: change_pct_def percent_change_def py_round1_zero)

text \<open>
  C6. With a previous summary the comparison returns the differences of the total and of
  the High counts, and for each a percentage change that is a multiple of one tenth within
  one twentieth of the exact percentage, that is, the percentage rounded to one decimal
  place; a previous count of zero gives the percentage 0 whatever the current count is.
  \<open>has_previous\<close> is true. From 0 to 5 defects the change is 5 and the percentage 0.
\<close>

theorem C6_compare_with_previous:
  "has_previous (compare_with_previous cur (Some prev)) \<and>
   defects_change (compare_with_previous cur (Some prev)) =
     total_defects (overview cur) - total_defects (overview prev) \<and>
   high_risk_change (compare_with_previous cur (Some prev)) =
     high (by_risk cur) - high (by_risk prev) \<and>
   (\<exists>pct. \<exists>k::int.
      defects_change_pct (compare_with_previous cur (Some prev)) = Some pct \<and>
      pct = of_int k / 10 \<and>
      (total_defects (overview prev) > 0 \<longrightarrow>
         \<bar>pct - percent_change (total_defects (overview cur)) (total_defects (overview prev))\<bar>
           \<le> 1 / 20) \<and>
      (total_defects (overview prev) = 0 \<longrightarrow> pct = 0)) \<and>
   (\<exists>pct. \<exists>k::int.
      high_risk_change_pct (compare_with_previous cur (Some prev)) = Some pct \<and>
      pct = of_int k / 10 \<and>
      (high (by_risk prev) > 0 \<longrightarrow>
         \<bar>pct - percent_change (high (by_risk cur)) (high (by_risk prev))\<bar> \<le> 1 / 20) \<and>
      (high (by_risk prev) = 0 \<longrightarrow> pct = 0)) \<and>
   (total_defects (overview prev) = 0 \<longrightarrow> total_defects (overview cur) = 5 \<longrightarrow>
      defects_change (compare_with_previous cur (Some prev)) = 5 \<and>
      defects_change_pct (compare_with_previous cur (Some prev)) = Some 0 \<and>
      has_previous (compare_with_previous cur (Some prev)))"
proof -
  let ?d = "compare_with_previous cur (Some prev)"
  let ?ct = "total_defects (overview cur)" and ?pt = "total_defects (overview prev)"
  let ?ch = "high (by_risk cur)" and ?ph = "high (by_risk prev)"
  have d: "has_previous ?d" "defects_change ?d = ?ct - ?pt" "high_risk_change ?d = ?ch - ?ph"
    "defects_change_pct ?d = Some (change_pct ?ct ?pt)"
    "high_risk_change_pct ?d = Some (change_pct ?ch ?ph)"
    by (simp_all add: compare_with_previous_def Let_def)
  from change_pct_props [of ?ct ?pt] obtain k :: int where
    t: "change_pct ?ct ?pt = of_int k / 10"
      "?pt > 0 \<longrightarrow> \<bar>change_pct ?ct ?pt - percent_change ?ct ?pt\<bar> \<le> 1 / 20"
      "?pt = 0 \<longrightarrow> change_pct ?ct ?pt = 0"
    by blast
  from change_pct_props [of ?ch ?ph] obtain j :: int where
    h: "change_pct ?ch ?ph = of_int j / 10"
      "?ph > 0 \<longrightarrow> \<bar>change_pct ?ch ?ph - percent_change ?ch ?ph\<bar> \<le> 1 / 20"
      "?ph = 0 \<longrightarrow> change_pct ?ch ?ph = 0"
    by blast
  have "\<exists>pct. \<exists>k::int. defects_change_pct ?d = Some pct \<and> pct = of_int k / 10 \<and>
      (?pt > 0 \<longrightarrow> \<bar>pct - percent_change ?ct ?pt\<bar> \<le> 1 / 20) \<and> (?pt = 0 \<longrightarrow> pct = 0)"
    using d(4) t by blast
  moreover have "\<exists>pct. \<exists>k::int. high_risk_change_pct ?d = Some pct \<and> pct = of_int k / 10 \<and>
      (?ph > 0 \<longrightarrow> \<bar>pct - percent_change ?ch ?ph\<bar> \<le> 1 / 20) \<and> (?ph = 0 \<longrightarrow> pct = 0)"
    using d(5) h by blast
  moreover have "?pt = 0 \<longrightarrow> ?ct = 5 \<longrightarrow>
      defects_change ?d = 5 \<and> defects_change_pct ?d = Some 0 \<and> has_previous ?d"
    using d by (simp add: change_pct_zero)
  ultimately show ?thesis using d(1,2,3) by blast
qed

theorem C6_compare_with_previous_witness:
  "total_defects (overview (summary_with 0 0)) = 0 \<and>
   total_defects (overview (summary_with 5 2)) = 5 \<and>
   defects_change (compare_with_previous (summary_with 5 2) (Some (summary_with 0 0))) = 5 \<and>
   defects_change_pct (compare_with_previous (summary_with 5 2) (Some (summary_with 0 0)))
     = Some 0 \<and>
   has_previous (compare_with_previous (summary_with 5 2) (Some (summary_with 0 0))) \<and>
   total_defects (overview (summary_with 8 3)) > 0 \<and>
   high (by_risk (summary_with 8 3)) > 0 \<and>
   defects_change_pct (compare_with_previous (summary_with 9 4) (Some (summary_with 8 3)))
     = Some 12.5 \<and>
   \<bar>12.5 - percent_change 9 8\<bar> \<le> (1 / 20 :: real)"
proof -
  have a: "total_defects (overview (summary_with 0 0)) = 0"
    "total_defects (overview (summary_with 5 2)) = 5"
    "total_defects (overview (summary_with 8 3)) = 8"
    "total_defects (overview (summary_with 9 4)) = 9"
    "high (by_risk (summary_with 8 3)) = 3"
    by (simp_all add: summary_with_def)
  have r: "defects_change_pct (compare_with_previous (summary_with 9 4) (Some (summary_with 8 3)))
     = Some 12.5"
    by (simp add: compare_with_previous_def summary_with_def change_pct_def py_round1_def)
  from C6_compare_with_previous [of "summary_with 5 2" "summary_with 0 0"] a
  have "defects_change (compare_with_previous (summary_with 5 2) (Some (summary_with 0 0))) = 5 \<and>
   defects_change_pct (compare_with_previous (summary_with 5 2) (Some (summary_with 0 0)))
     = Some 0 \<and>
   has_previous (compare_with_previous (summary_with 5 2) (Some (summary_with 0 0)))"
    by simp
  moreover have "\<bar>12.5 - percent_change 9 8\<bar> \<le> (1 / 20 :: real)"
  proof -
    from C6_compare_with_previous [of "summary_with 9 4" "summary_with 8 3"]
    obtain pct where p:
      "defects_change_pct (compare_with_previous (summary_with 9 4) (Some (summary_with 8 3)))
         = Some pct"
      "total_defects (overview (summary_with 8 3)) > 0 \<longrightarrow>
         \<bar>pct - percent_change (total_defects (overview (summary_with 9 4)))
           (total_defects (overview (summary_with 8 3)))\<bar> \<le> 1 / 20"
      by blast
    from p(1) r have "pct = 12.5" by simp
    with p(2) a show ?thesis by simp
  qed
  ultimately show ?thesis using a r by simp
qed

section \<open>Properties of tables\<close>

lemma ebind_Inr [simp]: "ebind (Inr v) f = f v"
  by (simp add: ebind_def)

lemma row_of_set_cell_in:
  "length r = length cols \<Longrightarrow>
   map_of (zip cols (map2 (\<lambda>k x. if k = c then v else x) cols r)) q =
     (if q = c \<and> q \<in> set cols then Some v else map_of (zip cols r) q)"
proof (induction cols r rule: list_induct2')
  case (4 k ks x xs)
  then show ?case by auto
qed simp_all

lemma row_of_set_cell:
  assumes "length r = length cols"
  shows "row_of (if c \<in> set cols then cols else cols @ [c]) (set_cell cols c r v) =
     (row_of cols r)(c \<mapsto> v)"
proof (cases "c \<in> set cols")
  case True
  show ?thesis
  proof
    fix q
    show "row_of (if c \<in> set cols then cols else cols @ [c]) (set_cell cols c r v) q =
      ((row_of cols r)(c \<mapsto> v)) q"
      using True row_of_set_cell_in [OF assms, of c v q]
      by (simp add: row_of_def set_cell_def)
  qed
next
  case False
  have "map fst (zip cols r) = cols"
    using assms by simp
  then have "fst ` set (zip cols r) = set cols"
    by (metis set_map)
  then have dom: "map_of (zip cols r) c = None"
    using False by (simp add: map_of_eq_None_iff)
  have z: "zip (cols @ [c]) (r @ [v]) = zip cols r @ [(c, v)]"
    using assms by simp
  have "map_of (zip cols r @ [(c, v)]) q = (if q = c then Some v else map_of (zip cols r) q)"
    for q
    using dom by (cases "map_of (zip cols r) q") (auto simp: map_add_def)
  then show ?thesis
    using False by (auto simp: row_of_def set_cell_def z)
qed

lemma length_set_cell:
  "length r = length cols \<Longrightarrow>
   length (set_cell cols c r v) = length (if c \<in> set cols then cols else cols @ [c])"
  by (simp add: set_cell_def)

lemma columns_set_column:
  "columns (set_column df c vs) = (if c \<in> set (columns df) then columns df else columns df @ [c])"
  by (simp add: set_column_def)

lemma rows_set_column:
  "rows (set_column df c vs) = map2 (set_cell (columns df) c) (rows df) vs"
  by (simp add: set_column_def)

lemma length_rows_set_column:
  "length vs = length (rows df) \<Longrightarrow> length (rows (set_column df c vs)) = length (rows df)"
  by (simp add: rows_set_column)

lemma wf_set_column:
  assumes "wf_frame df"
  shows "wf_frame (set_column df c vs)"
proof -
  have d: "distinct (columns (set_column df c vs))"
    using assms by (simp add: columns_set_column wf_frame_def)
  have "length r' = length (columns (set_column df c vs))"
    if "r' \<in> set (rows (set_column df c vs))" for r'
  proof -
    from that obtain r v where "r \<in> set (rows df)" "r' = set_cell (columns df) c r v"
      by (auto simp: rows_set_column dest: set_zip_leftD)
    moreover from this assms have "length r = length (columns df)"
      by (simp add: wf_frame_def list_all_iff)
    ultimately show ?thesis
      using length_set_cell [of r "columns df" c v] by (simp add: columns_set_column)
  qed
  then show ?thesis using d by (simp add: wf_frame_def list_all_iff)
qed

lemma get_column_set_same:
  assumes "wf_frame df" "length vs = length (rows df)"
  shows "get_column (set_column df c vs) c = Inr vs"
proof -
  define cols' where "cols' = (if c \<in> set (columns df) then columns df else columns df @ [c])"
  have mem: "c \<in> set cols'" by (simp add: cols'_def)
  have col: "columns (set_column df c vs) = cols'"
    by (simp add: columns_set_column cols'_def)
  have cell: "row_get (row_of cols' (set_cell (columns df) c r v)) c PNone = v"
    if "r \<in> set (rows df)" for r v
  proof -
    from that assms have "length r = length (columns df)"
      by (simp add: wf_frame_def list_all_iff)
    from row_of_set_cell [OF this, of c v] show ?thesis by (simp add: row_get_def cols'_def)
  qed
  have "map (\<lambda>r'. row_get (row_of cols' r') c PNone)
          (map2 (set_cell (columns df) c) (rows df) vs) = map snd (zip (rows df) vs)"
    by (auto simp: cell dest: set_zip_leftD)
  also have "\<dots> = vs" using assms(2) by simp
  finally show ?thesis
    unfolding get_column_def col rows_set_column using mem by simp
qed

lemma get_column_set_other:
  assumes "wf_frame df" "length vs = length (rows df)" "k \<noteq> c"
  shows "get_column (set_column df c vs) k = get_column df k"
proof -
  define cols' where "cols' = (if c \<in> set (columns df) then columns df else columns df @ [c])"
  have mem: "k \<in> set cols' \<longleftrightarrow> k \<in> set (columns df)"
    using assms(3) by (simp add: cols'_def)
  have col: "columns (set_column df c vs) = cols'"
    by (simp add: columns_set_column cols'_def)
  have cell: "row_get (row_of cols' (set_cell (columns df) c r v)) k PNone =
      row_get (row_of (columns df) r) k PNone"
    if "r \<in> set (rows df)" for r v
  proof -
    from that assms have "length r = length (columns df)"
      by (simp add: wf_frame_def list_all_iff)
    from row_of_set_cell [OF this, of c v] assms(3) show ?thesis
      by (simp add: row_get_def cols'_def)
  qed
  have "map (\<lambda>r'. row_get (row_of cols' r') k PNone)
          (map2 (set_cell (columns df) c) (rows df) vs) =
        map (\<lambda>r. row_get (row_of (columns df) r) k PNone) (map fst (zip (rows df) vs))"
    by (auto simp: cell dest: set_zip_leftD)
  also have "\<dots> = map (\<lambda>r. row_get (row_of (columns df) r) k PNone) (rows df)"
    using assms(2) by simp
  finally show ?thesis
    unfolding get_column_def col rows_set_column using mem by simp
qed

lemma apply_rows_total:
  "(\<forall>r \<in> set rs. \<exists>v. f (row_of cols r) = Inr v) \<Longrightarrow>
   \<exists>vs. apply_rows f cols rs = Inr vs \<and> length vs = length rs"
proof (induction rs)
  case Nil
  then show ?case by simp
next
  case (Cons r rs)
  then obtain v vs where "f (row_of cols r) = Inr v" "apply_rows f cols rs = Inr vs"
    "length vs = length rs" by auto
  then show ?case by simp
qed

lemma apply_rows_length:
  "apply_rows f cols rs = Inr vs \<Longrightarrow> length vs = length rs"
  by (induction rs arbitrary: vs) (auto split: sum.splits)

lemma apply_rows_sound:
  "apply_rows f cols rs = Inr vs \<Longrightarrow> i < length rs \<Longrightarrow> f (row_of cols (rs ! i)) = Inr (vs ! i)"
proof (induction rs arbitrary: vs i)
  case Nil
  then show ?case by simp
next
  case (Cons r rs)
  then show ?case by (cases i) (auto split: sum.splits)
qed

lemma risk_name_inject: "risk_name s = risk_name t \<longleftrightarrow> s = t"
  by (cases s; cases t) (simp_all add: asc_def)

lemma assign_priority_cell:
  "r risk_class = Some (risk_name t) \<Longrightarrow> assign_priority r = Inr (priority_of t)"
  by (cases t) (simp_all add: assign_priority_def asc_def)

lemma apply_priority:
  assumes "list_all (\<lambda>r. length r = length cols) rs" "length rc = length rs"
  shows "apply_rows assign_priority (if risk_class \<in> set cols then cols else cols @ [risk_class])
           (map2 (set_cell cols risk_class) rs (map risk_name rc)) = Inr (map priority_of rc)"
  using assms(2,1)
proof (induction rc rs rule: list_induct2)
  case Nil
  then show ?case by simp
next
  case (Cons t rc r rs)
  then have "length r = length cols" by simp
  from row_of_set_cell [OF this, of risk_class "risk_name t"]
  have "assign_priority (row_of (if risk_class \<in> set cols then cols else cols @ [risk_class])
          (set_cell cols risk_class r (risk_name t))) = Inr (priority_of t)"
    by (intro assign_priority_cell) simp
  then show ?case using Cons by simp
qed

lemma count_tiers:
  "length (filter (\<lambda>v. v = risk_name High) (map risk_name rc)) +
   length (filter (\<lambda>v. v = risk_name Medium) (map risk_name rc)) +
   length (filter (\<lambda>v. v = risk_name Low) (map risk_name rc)) = length rc"
proof (induction rc)
  case Nil
  then show ?case by simp
next
  case (Cons t rc)
  then show ?case by (cases t) (simp_all add: asc_def)
qed

lemma numbers_total:
  "(\<forall>v \<in> set vs. not_str (Some v)) \<Longrightarrow> \<exists>xs. numbers vs = Inr xs"
proof (induction vs)
  case Nil
  then show ?case by simp
next
  case (Cons v vs)
  then obtain xs where "numbers vs = Inr xs" by auto
  with Cons.prems show ?case
    by (cases v) (auto split: flt.splits)
qed

lemma series_total:
  assumes "\<forall>v \<in> set vs. not_str (Some v)"
  shows "\<exists>x. series_mean vs = Inr x" "\<exists>x. series_max vs = Inr x" "\<exists>x. series_min vs = Inr x"
proof -
  from numbers_total [OF assms] obtain xs where "numbers vs = Inr xs" by blast
  then show "\<exists>x. series_mean vs = Inr x" "\<exists>x. series_max vs = Inr x"
    "\<exists>x. series_min vs = Inr x"
    by (simp_all add: series_mean_def series_max_def series_min_def split: list.splits)
qed

lemma column_stat_total:
  assumes "\<And>vs. get_column df c = Inr vs \<Longrightarrow> \<forall>v \<in> set vs. not_str (Some v)"
    and "agg = series_mean \<or> agg = series_max \<or> agg = series_min"
  shows "\<exists>x. column_stat agg df c = Inr x"
proof (cases "c \<in> set (columns df)")
  case True
  then obtain vs where vs: "get_column df c = Inr vs" by (simp add: get_column_def)
  then have "\<forall>v \<in> set vs. not_str (Some v)" by (rule assms(1))
  from series_total [OF this] assms(2) obtain x where "agg vs = Inr x" by auto
  then show ?thesis using True vs by (simp add: column_stat_def)
next
  case False
  then show ?thesis by (simp add: column_stat_def)
qed

lemma column_counts_total: "\<exists>x. column_counts df c = Inr x"
  by (simp add: column_counts_def get_column_def)

lemma count_risk_eq:
  "get_column df risk_class = Inr vs \<Longrightarrow>
   count_risk df t = Inr (int (length (filter (\<lambda>v. v = risk_name t) vs)))"
  by (simp add: count_risk_def)

text \<open>The cells of a classifier column of a table that keeps the invariant are no texts.\<close>

lemma frame_ok_cells:
  assumes "frame_ok df" "get_column df c = Inr vs"
    "c \<in> {erf_b31g, erf_dnv, wall_thickness_remaining_mm, depth_pct}"
  shows "\<forall>v \<in> set vs. not_str (Some v)"
proof
  fix v assume "v \<in> set vs"
  moreover from assms(2) have "vs = map (\<lambda>r. row_get (row_of (columns df) r) c PNone) (rows df)"
    by (simp add: get_column_def split: if_splits)
  ultimately obtain r where r: "r \<in> set (rows df)" "v = row_get (row_of (columns df) r) c PNone"
    by auto
  with assms(1) have "numeric_fields_ok (row_of (columns df) r)"
    by (simp add: frame_ok_def list_all_iff)
  with assms(3) have "not_str (row_of (columns df) r c)"
    by (auto simp: numeric_fields_ok_def)
  then show "not_str (Some v)"
    using r(2) by (cases "row_of (columns df) r c") (simp_all add: row_get_def)
qed

text \<open>
  The function as one equation, once each of its steps is known to succeed: the store
  grows by the enriched copy, and nothing else in it changes.
\<close>

lemma compute_inspection_summary_eq:
  assumes "apply_rows assign_risk_class (columns (h ! a)) (rows (h ! a)) = Inr rc"
    and "d1 = set_column (h ! a) risk_class (map risk_name rc)"
    and "apply_rows assign_priority (columns d1) (rows d1) = Inr pr"
    and "d2 = set_column d1 repair_priority pr"
    and "count_risk d2 High = Inr nh" "count_risk d2 Medium = Inr nm"
    and "count_risk d2 Low = Inr nl"
    and "column_counts d2 anomaly_type = Inr ty" "column_counts d2 repair_flag = Inr fl"
    and "column_stat series_mean d2 depth_pct = Inr s1"
    and "column_stat series_max d2 depth_pct = Inr s2"
    and "column_stat series_mean d2 erf_b31g = Inr s3"
    and "column_stat series_min d2 erf_b31g = Inr s4"
    and "column_stat series_mean d2 wall_thickness_remaining_mm = Inr s5"
  shows "compute_inspection_summary h a inspection_meta =
     Inr (\<lparr>overview =
               \<lparr>total_defects = int (length (rows d2)),
                pipeline_name = meta_get inspection_meta ''pipeline_name'',
                segment_km = meta_get inspection_meta ''segment_km'',
                diameter_mm = meta_get inspection_meta ''diameter_mm'',
                inspection_method = meta_get inspection_meta ''method'',
                inspection_date = meta_get inspection_meta ''start_date''\<rparr>,
             by_risk = \<lparr>high = nh, medium = nm, low = nl\<rparr>,
             by_type = ty,
             by_repair_flag = fl,
             statistics =
               \<lparr>avg_depth_pct = s1, max_depth_pct = s2,
                avg_erf_b31g = s3, min_erf_b31g = s4,
                avg_wall_remaining_mm = s5\<rparr>,
             table = length h\<rparr>, h @ [d2])"
proof -
  have h1: "(h @ [h ! a]) ! length h = h ! a" by simp
  have h2: "(h @ [h ! a])[length h := d1] = h @ [d1]" by simp
  have h3: "(h @ [d1])[length h := d2] = h @ [d2]" by simp
  have n1: "(h @ [d1]) ! length h = d1" by simp
  have n2: "(h @ [d2]) ! length h = d2" by simp
  show ?thesis
    unfolding compute_inspection_summary_def copy_frame_def prod.case h1 assms(1) ebind_Inr
      Let_def assms(2) [symmetric] h2 n1 assms(3) assms(4) [symmetric] h3 n2
      assms(5-14)
    by (rule refl)
qed

lemma keys_derived:
  "risk_class \<noteq> repair_priority"
  "depth_pct \<noteq> risk_class" "depth_pct \<noteq> repair_priority"
  "erf_b31g \<noteq> risk_class" "erf_b31g \<noteq> repair_priority"
  "wall_thickness_remaining_mm \<noteq> risk_class" "wall_thickness_remaining_mm \<noteq> repair_priority"
  by (simp_all add: risk_class_def repair_priority_def depth_pct_def erf_b31g_def
      wall_thickness_remaining_mm_def asc_def)

text \<open>
  On a table that keeps the invariant every step succeeds. The store after the call is
  the store before it with one more table at its end: the copy with the two derived
  columns.
\<close>

lemma compute_inspection_summary_ok:
  assumes ok: "frame_ok (h ! a)"
  shows "\<exists>rc s.
     apply_rows assign_risk_class (columns (h ! a)) (rows (h ! a)) = Inr rc \<and>
     length rc = length (rows (h ! a)) \<and>
     compute_inspection_summary h a inspection_meta =
       Inr (s, h @ [set_column (set_column (h ! a) risk_class (map risk_name rc))
                      repair_priority (map priority_of rc)]) \<and>
     table s = length h \<and>
     total_defects (overview s) = int (length (rows (h ! a))) \<and>
     high (by_risk s) = int (length (filter (\<lambda>v. v = risk_name High) (map risk_name rc))) \<and>
     medium (by_risk s) = int (length (filter (\<lambda>v. v = risk_name Medium) (map risk_name rc))) \<and>
     low (by_risk s) = int (length (filter (\<lambda>v. v = risk_name Low) (map risk_name rc)))"
proof -
  let ?d0 = "h ! a"
  have wf0: "wf_frame ?d0" using ok by (simp add: frame_ok_def)
  have "\<forall>r \<in> set (rows ?d0). \<exists>t. assign_risk_class (row_of (columns ?d0) r) = Inr t"
    using ok by (auto simp: frame_ok_def list_all_iff assign_risk_class_rules)
  from apply_rows_total [OF this] obtain rc where
    rc: "apply_rows assign_risk_class (columns ?d0) (rows ?d0) = Inr rc"
    and len: "length rc = length (rows ?d0)" by blast
  define d1 where "d1 = set_column ?d0 risk_class (map risk_name rc)"
  define d2 where "d2 = set_column d1 repair_priority (map priority_of rc)"
  have wf1: "wf_frame d1" unfolding d1_def by (rule wf_set_column [OF wf0])
  have len1: "length (rows d1) = length (rows ?d0)"
    unfolding d1_def using len by (simp add: length_rows_set_column)
  have len2: "length (rows d2) = length (rows ?d0)"
    unfolding d2_def using len len1 by (simp add: length_rows_set_column)
  have rows0: "list_all (\<lambda>r. length r = length (columns ?d0)) (rows ?d0)"
    using wf0 by (simp add: wf_frame_def)
  have pr: "apply_rows assign_priority (columns d1) (rows d1) = Inr (map priority_of rc)"
    unfolding d1_def columns_set_column rows_set_column
    by (rule apply_priority [OF rows0 len])
  have c1: "get_column d1 risk_class = Inr (map risk_name rc)"
    unfolding d1_def using len by (intro get_column_set_same [OF wf0]) simp
  have other2: "get_column d2 k = get_column d1 k" if "k \<noteq> repair_priority" for k
    unfolding d2_def using len len1 that by (intro get_column_set_other [OF wf1]) simp_all
  have other1: "get_column d1 k = get_column ?d0 k" if "k \<noteq> risk_class" for k
    unfolding d1_def using len that by (intro get_column_set_other [OF wf0]) simp_all
  have c2: "get_column d2 risk_class = Inr (map risk_name rc)"
    using other2 [of risk_class] c1 keys_derived by simp
  note cnt = count_risk_eq [OF c2]
  obtain ty fl where tf: "column_counts d2 anomaly_type = Inr ty"
    "column_counts d2 repair_flag = Inr fl"
    using column_counts_total by meson
  have cells: "\<forall>v \<in> set vs. not_str (Some v)"
    if "get_column d2 c = Inr vs" "c \<in> {erf_b31g, wall_thickness_remaining_mm, depth_pct}"
    for c vs
  proof -
    from that(2) keys_derived have "c \<noteq> risk_class" "c \<noteq> repair_priority" by auto
    then have "get_column ?d0 c = Inr vs" using that(1) other1 other2 by simp
    from frame_ok_cells [OF ok this] that(2) show ?thesis by blast
  qed
  obtain s1 where s1: "column_stat series_mean d2 depth_pct = Inr s1"
    using column_stat_total [of d2 depth_pct series_mean] cells by blast
  obtain s2 where s2: "column_stat series_max d2 depth_pct = Inr s2"
    using column_stat_total [of d2 depth_pct series_max] cells by blast
  obtain s3 where s3: "column_stat series_mean d2 erf_b31g = Inr s3"
    using column_stat_total [of d2 erf_b31g series_mean] cells by blast
  obtain s4 where s4: "column_stat series_min d2 erf_b31g = Inr s4"
    using column_stat_total [of d2 erf_b31g series_min] cells by blast
  obtain s5 where s5: "column_stat series_mean d2 wall_thickness_remaining_mm = Inr s5"
    using column_stat_total [of d2 wall_thickness_remaining_mm series_mean] cells by blast
  note eq = compute_inspection_summary_eq [OF rc d1_def pr d2_def cnt [of High] cnt [of Medium]
      cnt [of Low] tf s1 s2 s3 s4 s5, of inspection_meta]
  show ?thesis
    using rc len eq len2 unfolding d2_def d1_def by simp
qed

lemma frame_two_rows_ok: "frame_ok frame_two_rows"
  using keys_distinct
  by (auto simp: frame_ok_def wf_frame_def frame_two_rows_def numeric_fields_ok_def row_of_def)

text \<open>
  C10. For every table that keeps the data model's invariant, empty or not, the call
  returns a summary; its \<open>by_risk\<close> entry has the three counts High, Medium and Low, and
  they add up to \<open>total_defects\<close>, the number of rows of the table.
\<close>

theorem C10_risk_counts_sum:
  assumes "a < length h" and "frame_ok (h ! a)"
  shows "\<exists>s h'. compute_inspection_summary h a inspection_meta = Inr (s, h') \<and>
     high (by_risk s) + medium (by_risk s) + low (by_risk s) = total_defects (overview s) \<and>
     total_defects (overview s) = int (length (rows (h ! a)))"
proof -
  from compute_inspection_summary_ok [OF assms(2), of inspection_meta]
  obtain rc s where
    "length rc = length (rows (h ! a))"
    "compute_inspection_summary h a inspection_meta =
       Inr (s, h @ [set_column (set_column (h ! a) risk_class (map risk_name rc))
                      repair_priority (map priority_of rc)])"
    "total_defects (overview s) = int (length (rows (h ! a)))"
    "high (by_risk s) = int (length (filter (\<lambda>v. v = risk_name High) (map risk_name rc)))"
    "medium (by_risk s) = int (length (filter (\<lambda>v. v = risk_name Medium) (map risk_name rc)))"
    "low (by_risk s) = int (length (filter (\<lambda>v. v = risk_name Low) (map risk_name rc)))"
    by blast
  moreover from count_tiers [of rc]
  have "int (length (filter (\<lambda>v. v = risk_name High) (map risk_name rc))) +
    int (length (filter (\<lambda>v. v = risk_name Medium) (map risk_name rc))) +
    int (length (filter (\<lambda>v. v = risk_name Low) (map risk_name rc))) = int (length rc)"
    by linarith
  ultimately show ?thesis by auto
qed

theorem C10_risk_counts_sum_witness:
  "(0::nat) < length [frame_two_rows] \<and> frame_ok ([frame_two_rows] ! 0) \<and>
   rows ([frame_two_rows] ! 0) \<noteq> [] \<and>
   (\<exists>s h'. compute_inspection_summary [frame_two_rows] 0 Map.empty = Inr (s, h') \<and>
      high (by_risk s) + medium (by_risk s) + low (by_risk s) = 2 \<and>
      total_defects (overview s) = 2)"
proof -
  have ok: "frame_ok ([frame_two_rows] ! 0)" using frame_two_rows_ok by simp
  have n: "rows ([frame_two_rows] ! 0) \<noteq> []" "int (length (rows ([frame_two_rows] ! 0))) = 2"
    by (simp_all add: frame_two_rows_def)
  from C10_risk_counts_sum [of 0 "[frame_two_rows]" Map.empty] ok n(2)
  have "\<exists>s h'. compute_inspection_summary [frame_two_rows] 0 Map.empty = Inr (s, h') \<and>
      high (by_risk s) + medium (by_risk s) + low (by_risk s) = 2 \<and>
      total_defects (overview s) = 2"
    by auto
  then show ?thesis using ok n(1) by simp
qed

section \<open>Properties of the aggregation\<close>

lemma frame_without_rows_ok: "rows df = [] \<Longrightarrow> distinct (columns df) \<Longrightarrow> frame_ok df"
  by (simp add: frame_ok_def wf_frame_def)







text \<open>The columns of the enriched copy of a well-formed table.\<close>

lemma enriched_columns:
  assumes wf0: "wf_frame d0" and len: "length rc = length (rows d0)"
    and d2: "d2 = set_column (set_column d0 risk_class (map risk_name rc))
                    repair_priority (map priority_of rc)"
  shows "prefix (columns d0) (columns d2)"
    and "set (columns d2) = set (columns d0) \<union> {risk_class, repair_priority}"
    and "\<forall>k. k \<noteq> risk_class \<longrightarrow> k \<noteq> repair_priority \<longrightarrow> get_column d2 k = get_column d0 k"
    and "get_column d2 risk_class = Inr (map risk_name rc)"
    and "get_column d2 repair_priority = Inr (map priority_of rc)"
proof -
  define d1 where "d1 = set_column d0 risk_class (map risk_name rc)"
  have d2': "d2 = set_column d1 repair_priority (map priority_of rc)"
    by (simp add: d2 d1_def)
  have wf1: "wf_frame d1" unfolding d1_def by (rule wf_set_column [OF wf0])
  have len1: "length (rows d1) = length (rows d0)"
    unfolding d1_def using len by (simp add: length_rows_set_column)
  have other2: "get_column d2 k = get_column d1 k" if "k \<noteq> repair_priority" for k
    unfolding d2' using len len1 that by (intro get_column_set_other [OF wf1]) simp_all
  have other1: "get_column d1 k = get_column d0 k" if "k \<noteq> risk_class" for k
    unfolding d1_def using len that by (intro get_column_set_other [OF wf0]) simp_all
  have c1: "get_column d1 risk_class = Inr (map risk_name rc)"
    unfolding d1_def using len by (intro get_column_set_same [OF wf0]) simp
  show "prefix (columns d0) (columns d2)"
    by (simp add: d2 columns_set_column)
  show "set (columns d2) = set (columns d0) \<union> {risk_class, repair_priority}"
    by (auto simp: d2 columns_set_column)
  show "\<forall>k. k \<noteq> risk_class \<longrightarrow> k \<noteq> repair_priority \<longrightarrow> get_column d2 k = get_column d0 k"
    using other1 other2 by simp
  show "get_column d2 risk_class = Inr (map risk_name rc)"
    using other2 [of risk_class] c1 keys_derived by simp
  show "get_column d2 repair_priority = Inr (map priority_of rc)"
    unfolding d2' using len len1 by (intro get_column_set_same [OF wf1]) simp
qed

text \<open>
  C8. The call leaves the caller's table as it was, and every other table of the store
  too. It works on a copy, a new table of the store, which the summary holds as its
  \<open>table\<close>: the copy has the columns of the source in their order, then \<open>risk_class\<close> and
  \<open>repair_priority\<close> where the source lacks them; its \<open>risk_class\<close> column holds the tier of
  each row and its \<open>repair_priority\<close> column the priority of that tier; every other column
  holds the cells of the source.
\<close>

theorem C8_enriches_a_copy:
  assumes "a < length h" and "frame_ok (h ! a)"
  shows "\<exists>s h' rc. compute_inspection_summary h a inspection_meta = Inr (s, h') \<and>
     h' ! a = h ! a \<and> take (length h) h' = h \<and> length h' = Suc (length h) \<and>
     table s = length h \<and> table s \<noteq> a \<and>
     prefix (columns (h ! a)) (columns (h' ! table s)) \<and>
     set (columns (h' ! table s)) = set (columns (h ! a)) \<union> {risk_class, repair_priority} \<and>
     (\<forall>k. k \<noteq> risk_class \<longrightarrow> k \<noteq> repair_priority \<longrightarrow>
        get_column (h' ! table s) k = get_column (h ! a) k) \<and>
     apply_rows assign_risk_class (columns (h ! a)) (rows (h ! a)) = Inr rc \<and>
     get_column (h' ! table s) risk_class = Inr (map risk_name rc) \<and>
     get_column (h' ! table s) repair_priority = Inr (map priority_of rc)"
proof -
  from compute_inspection_summary_ok [OF assms(2), of inspection_meta]
  obtain rc s where rc: "apply_rows assign_risk_class (columns (h ! a)) (rows (h ! a)) = Inr rc"
    and len: "length rc = length (rows (h ! a))"
    and eq: "compute_inspection_summary h a inspection_meta =
       Inr (s, h @ [set_column (set_column (h ! a) risk_class (map risk_name rc))
                      repair_priority (map priority_of rc)])"
    and tab: "table s = length h"
    by blast
  define d2 where "d2 = set_column (set_column (h ! a) risk_class (map risk_name rc))
                    repair_priority (map priority_of rc)"
  have wf0: "wf_frame (h ! a)" using assms(2) by (simp add: frame_ok_def)
  note cols = enriched_columns [OF wf0 len d2_def]
  have at: "(h @ [d2]) ! table s = d2" by (simp add: tab)
  show ?thesis
  proof (rule exI [of _ s], rule exI [of _ "h @ [d2]"], rule exI [of _ rc], intro conjI)
    show "compute_inspection_summary h a inspection_meta = Inr (s, h @ [d2])"
      using eq by (simp add: d2_def)
    show "(h @ [d2]) ! a = h ! a" using assms(1) by (simp add: nth_append)
    show "take (length h) (h @ [d2]) = h" by simp
    show "length (h @ [d2]) = Suc (length h)" by simp
    show "table s = length h" by (rule tab)
    show "table s \<noteq> a" using tab assms(1) by simp
    show "prefix (columns (h ! a)) (columns ((h @ [d2]) ! table s))"
      unfolding at by (rule cols(1))
    show "set (columns ((h @ [d2]) ! table s)) =
        set (columns (h ! a)) \<union> {risk_class, repair_priority}"
      unfolding at by (rule cols(2))
    show "\<forall>k. k \<noteq> risk_class \<longrightarrow> k \<noteq> repair_priority \<longrightarrow>
        get_column ((h @ [d2]) ! table s) k = get_column (h ! a) k"
      unfolding at by (rule cols(3))
    show "apply_rows assign_risk_class (columns (h ! a)) (rows (h ! a)) = Inr rc"
      by (rule rc)
    show "get_column ((h @ [d2]) ! table s) risk_class = Inr (map risk_name rc)"
      unfolding at by (rule cols(4))
    show "get_column ((h @ [d2]) ! table s) repair_priority = Inr (map priority_of rc)"
      unfolding at by (rule cols(5))
  qed
qed

theorem C8_enriches_a_copy_witness:
  "(0::nat) < length [frame_two_rows] \<and> frame_ok ([frame_two_rows] ! 0) \<and>
   (\<exists>s h'. compute_inspection_summary [frame_two_rows] 0 Map.empty = Inr (s, h') \<and>
      h' ! 0 = frame_two_rows \<and> table s = 1 \<and>
      set (columns (h' ! 1)) = {depth_pct, erf_b31g, risk_class, repair_priority})"
proof -
  have ok: "frame_ok ([frame_two_rows] ! 0)" using frame_two_rows_ok by simp
  from C8_enriches_a_copy [of 0 "[frame_two_rows]" Map.empty] ok
  obtain s h' where
    "compute_inspection_summary [frame_two_rows] 0 Map.empty = Inr (s, h')"
    "h' ! 0 = [frame_two_rows] ! 0" "table s = length [frame_two_rows]"
    "set (columns (h' ! table s)) =
       set (columns ([frame_two_rows] ! 0)) \<union> {risk_class, repair_priority}"
    by auto
  then have "compute_inspection_summary [frame_two_rows] 0 Map.empty = Inr (s, h') \<and>
      h' ! 0 = frame_two_rows \<and> table s = 1 \<and>
      set (columns (h' ! 1)) = {depth_pct, erf_b31g, risk_class, repair_priority}"
    by (auto simp: frame_two_rows_def)
  then show ?thesis using ok by auto
qed

text \<open>
  The claim C8 as the specification states it fails: after the call on a table of two
  rows the caller's table is the one it was and has neither derived column.
\<close>

theorem C8_caller_table_counterexample:
  "returned_summary (compute_inspection_summary [frame_two_rows] 0 Map.empty) \<noteq> None \<and>
   store_after [frame_two_rows]
     (compute_inspection_summary [frame_two_rows] 0 Map.empty) ! 0 = frame_two_rows \<and>
   risk_class \<notin> set (columns (store_after [frame_two_rows]
     (compute_inspection_summary [frame_two_rows] 0 Map.empty) ! 0)) \<and>
   repair_priority \<notin> set (columns (store_after [frame_two_rows]
     (compute_inspection_summary [frame_two_rows] 0 Map.empty) ! 0))"
proof -
  have ok: "frame_ok ([frame_two_rows] ! 0)" using frame_two_rows_ok by simp
  from compute_inspection_summary_ok [OF ok, of Map.empty]
  obtain s d2 where "compute_inspection_summary [frame_two_rows] 0 Map.empty =
      Inr (s, [frame_two_rows] @ [d2])"
    by blast
  then have r: "returned_summary (compute_inspection_summary [frame_two_rows] 0 Map.empty) = Some s"
    "store_after [frame_two_rows]
       (compute_inspection_summary [frame_two_rows] 0 Map.empty) ! 0 = frame_two_rows"
    by (simp_all add: returned_summary_def store_after_def)
  have "risk_class \<notin> set (columns frame_two_rows)"
    "repair_priority \<notin> set (columns frame_two_rows)"
    using keys_derived by (auto simp: frame_two_rows_def)
  then show ?thesis using r by simp
qed

end
